(* ===== verification/Prelude.thy ===== *)
theory Prelude
  imports Main "HOL-Library.Word" "HOL-Library.List_Lexorder" "HOL-Library.Char_ord"
    "HOL-Library.Code_Target_Numeral"
begin

text \<open>
  Shared vocabulary of the subscription-service development: the machine types
  of Go that the model needs (bytes, the range of \<open>int\<close> = int64), decimal
  printing of numbers as Go's \<open>fmt.Sprintf("%d", n)\<close> and \<open>strconv.Itoa\<close> do it,
  decimal reading of a digit string, and the lemma collections the component
  theories feed into their proofs.
\<close>

type_synonym byte = "8 word"

named_theorems pg_defs "unfoldings of the PostgresStore operations"
named_theorems handler_defs "unfoldings of the HTTP handlers"

subsection \<open>Go's int: int64\<close>

definition int64_min :: int where
  "int64_min = - (2 ^ 63)"

definition int64_max :: int where
  "int64_max = 2 ^ 63 - 1"

definition in_int64 :: "int \<Rightarrow> bool" where
  "in_int64 x \<longleftrightarrow> int64_min \<le> x \<and> x \<le> int64_max"

subsection \<open>Decimal digits\<close>

definition digit_char :: "nat \<Rightarrow> char" where
  "digit_char d = char_of (48 + d)"

definition dec_digit :: "char \<Rightarrow> bool" where
  "dec_digit c \<longleftrightarrow> (48::nat) \<le> of_char c \<and> of_char c \<le> (57::nat)"

definition digit_val :: "char \<Rightarrow> nat" where
  "digit_val c = of_char c - (48::nat)"

text \<open>\<open>fmt.Sprintf("%d", n)\<close> for a non-negative \<open>n\<close>: most significant digit first.\<close>

fun nat_str :: "nat \<Rightarrow> string" where
  "nat_str n = (if n < 10 then [digit_char n] else nat_str (n div 10) @ [digit_char (n mod 10)])"

declare nat_str.simps [simp del]

text \<open>\<open>fmt.Sprintf("%d", i)\<close> for a Go int, the sign written in front.\<close>

definition int_str :: "int \<Rightarrow> string" where
  "int_str i = (if i < 0 then CHR ''-'' # nat_str (nat (- i)) else nat_str (nat i))"

text \<open>A non-empty run of decimal digits and the number it denotes.\<close>

definition is_dec :: "string \<Rightarrow> bool" where
  "is_dec s \<longleftrightarrow> s \<noteq> [] \<and> list_all dec_digit s"

definition dec_val :: "string \<Rightarrow> nat" where
  "dec_val s = foldl (\<lambda>n c. 10 * n + digit_val c) 0 s"

subsection \<open>Lemmas on digits\<close>

lemma digit_char_props [simp]:
  assumes "d < 10"
  shows "dec_digit (digit_char d)" and "digit_val (digit_char d) = d"
proof -
  from assms have "of_char (digit_char d) = (48 + d :: nat)"
    by (simp add: digit_char_def of_char_of)
  with assms show "dec_digit (digit_char d)" and "digit_val (digit_char d) = d"
    by (simp_all add: dec_digit_def digit_val_def)
qed

lemma dec_val_snoc [simp]: "dec_val (s @ [c]) = 10 * dec_val s + digit_val c"
  by (simp add: dec_val_def)

lemma nat_str_digits: "list_all dec_digit (nat_str n)"
proof (induction n rule: nat_str.induct)
  case (1 n)
  then show ?case by (simp add: nat_str.simps [of n])
qed

lemma nat_str_nonempty [simp]: "nat_str n \<noteq> []"
  by (simp add: nat_str.simps [of n])

lemma is_dec_nat_str [simp]: "is_dec (nat_str n)"
  by (simp add: is_dec_def nat_str_digits)

text \<open>Printing a number in decimal and reading it back gives the number.\<close>

lemma dec_val_nat_str [simp]: "dec_val (nat_str n) = n"
proof (induction n rule: nat_str.induct)
  case (1 n)
  show ?case
  proof (cases "n < 10")
    case True
    then have "dec_val (nat_str n) = dec_val ([] @ [digit_char n])"
      by (simp add: nat_str.simps [of n])
    with True show ?thesis by (simp only: dec_val_snoc) (simp add: dec_val_def)
  next
    case False
    with "1.IH" show ?thesis by (simp add: nat_str.simps [of n])
  qed
qed

lemma nat_str_inj: "nat_str m = nat_str n \<Longrightarrow> m = n"
  by (metis dec_val_nat_str)

lemma dec_digit_not_sep [simp]:
  "dec_digit c \<Longrightarrow> c \<noteq> CHR ''=''" "dec_digit c \<Longrightarrow> c \<noteq> CHR ''-''"
  "dec_digit c \<Longrightarrow> c \<noteq> CHR ''?''" "\<not> dec_digit (CHR '' '')"
  by (auto simp: dec_digit_def)

subsection \<open>Lists\<close>

lemma takeWhile_stop: "rest = [] \<or> \<not> P (hd rest) \<Longrightarrow> takeWhile P rest = []"
  by (cases rest) auto

lemma dropWhile_stop: "rest = [] \<or> \<not> P (hd rest) \<Longrightarrow> dropWhile P rest = rest"
  by (cases rest) auto

lemma find_snoc:
  "find P (xs @ [x]) = (case find P xs of None \<Rightarrow> if P x then Some x else None | Some y \<Rightarrow> Some y)"
  by (induction xs) simp_all

text \<open>
  Text order (\<open>List_Lexorder\<close>) on strings that begin with fields of the
  same width: the first fields decide, and only equal ones hand over to the rest.
\<close>

lemma append_less_same_length:
  "length a = length b \<Longrightarrow> (a @ xs < b @ ys) \<longleftrightarrow> (a < b \<or> a = b \<and> xs < ys)"
  for a b xs ys :: "'a::linorder list"
proof (induction a arbitrary: b)
  case Nil then show ?case by simp
next
  case (Cons x a)
  then obtain y b' where "b = y # b'" "length a = length b'" by (cases b) auto
  with Cons.IH show ?case by auto
qed

lemma append_le_same_length:
  "length a = length b \<Longrightarrow> (a @ xs \<le> b @ ys) \<longleftrightarrow> (a < b \<or> a = b \<and> xs \<le> ys)"
  for a b xs ys :: "'a::linorder list"
  by (auto simp: le_less append_less_same_length)

end
