(* ===== verification/Model.thy ===== *)
theory Model
  imports Prelude
begin

text \<open>
  The record model, \<open>src/internal/model/subscription.go\<close>: the Go struct
  \<open>model.Subscription\<close> as an Isabelle record with the struct's field names.
  \<open>uuid.UUID\<close> is a \<open>[16]byte\<close> array, modelled as a list of bytes (sixteen of
  them for every value the program produces); \<open>time.Time\<close> is a timestamp in
  microseconds, the resolution of a PostgreSQL \<open>timestamp\<close>; the pointer
  \<open>*string\<close> of \<open>EndDate\<close> is an option, so that \<open>nil\<close> and a pointer to the
  empty string stay apart.
\<close>

type_synonym uuid = "byte list"

type_synonym time = nat

record subscription =
  ID :: uuid
  ServiceName :: string
  Price :: int
  UserID :: uuid
  StartDate :: string
  EndDate :: "string option"
  CreatedAt :: time

definition valid_uuid :: "uuid \<Rightarrow> bool" where
  "valid_uuid u \<longleftrightarrow> length u = 16"

text \<open>The zero value \<open>model.Subscription{}\<close> the handlers decode into.\<close>

definition zero_subscription :: subscription where
  "zero_subscription =
     \<lparr>ID = replicate 16 0, ServiceName = [], Price = 0, UserID = replicate 16 0,
      StartDate = [], EndDate = None, CreatedAt = 0\<rparr>"

end
