(* ===== verification/Store.thy ===== *)
theory Store
  imports Model
begin

text \<open>
  The data-access contract, \<open>src/internal/store/pg.go\<close> lines 13--20: the Go
  interface \<open>store.Store\<close> with its six methods. A Go interface value is a method
  table over a hidden receiver; it is modelled as a record of six functions over a
  state type \<open>'s\<close>, each returning an error or a result, and the new state.
  The handlers (theory \<open>Handler\<close>) are written against this record only, so
  every lemma about them holds for any backend; \<open>Pg\<close> instantiates it with the
  PostgreSQL backend. The errors are the ones the backends of this repository
  return. The second half states the contract itself (spec section 4.1) on an
  abstract table, a map from ids to records, against which \<open>Pg\<close> proves its
  refinement lemmas.
\<close>

datatype store_error =
    ErrNoRows
  | ErrNotFound
  | ErrConnection string
  | ErrUniqueViolation
  | ErrNegativeLimit
  | ErrNegativeOffset
  | ErrOutOfRange
  | ErrBadQuery

text \<open>The text \<open>err.Error()\<close> the handlers write into an error response.\<close>

fun error_text :: "store_error \<Rightarrow> string" where
  "error_text ErrNoRows = ''sql: no rows in result set''"
| "error_text ErrNotFound = ''not found''"
| "error_text (ErrConnection s) = s"
| "error_text ErrUniqueViolation =
     ''pq: duplicate key value violates unique constraint \"subscriptions_pkey\"''"
| "error_text ErrNegativeLimit = ''pq: LIMIT must not be negative''"
| "error_text ErrNegativeOffset = ''pq: OFFSET must not be negative''"
| "error_text ErrOutOfRange = ''sql: Scan error: value out of range''"
| "error_text ErrBadQuery = ''pq: syntax error''"

type_synonym ('s, 'a) store_result = "(store_error + 'a) \<times> 's"

text \<open>
  The interface. A Go \<open>nil\<close> slice and an empty one are told apart by the JSON
  encoder (\<open>null\<close> against \<open>[]\<close>), so \<open>List\<close> returns \<open>None\<close> for a nil slice.
\<close>

record 's store =
  Create :: "subscription \<Rightarrow> 's \<Rightarrow> ('s, unit) store_result"
  Get :: "uuid \<Rightarrow> 's \<Rightarrow> ('s, subscription) store_result"
  Update :: "subscription \<Rightarrow> 's \<Rightarrow> ('s, unit) store_result"
  Delete :: "uuid \<Rightarrow> 's \<Rightarrow> ('s, unit) store_result"
  List :: "int \<Rightarrow> int \<Rightarrow> uuid option \<Rightarrow> string option \<Rightarrow> 's \<Rightarrow>
             ('s, subscription list option) store_result"
  Summary :: "string \<Rightarrow> string \<Rightarrow> uuid option \<Rightarrow> string option \<Rightarrow> 's \<Rightarrow>
             ('s, int) store_result"

definition slice_list :: "'a list option \<Rightarrow> 'a list" where
  "slice_list s = (case s of None \<Rightarrow> [] | Some xs \<Rightarrow> xs)"

subsection \<open>The contract on an abstract table\<close>

type_synonym table = "uuid \<rightharpoonup> subscription"

text \<open>The optional equality filters of \<open>List\<close> and \<open>Summary\<close>.\<close>

definition matches :: "uuid option \<Rightarrow> string option \<Rightarrow> subscription \<Rightarrow> bool" where
  "matches uid sn r \<longleftrightarrow>
     (case uid of None \<Rightarrow> True | Some u \<Rightarrow> UserID r = u) \<and>
     (case sn of None \<Rightarrow> True | Some s \<Rightarrow> ServiceName r = s)"

text \<open>
  The period condition of \<open>Summary\<close>: start on or after \<open>period_from\<close>, and an end
  on or before \<open>period_to\<close> or no end at all. Period markers are compared as
  strings, byte by byte.
\<close>

definition in_period :: "string \<Rightarrow> string \<Rightarrow> subscription \<Rightarrow> bool" where
  "in_period pfrom pto r \<longleftrightarrow>
     pfrom \<le> StartDate r \<and> (case EndDate r of None \<Rightarrow> True | Some e \<Rightarrow> e \<le> pto)"

definition spec_create :: "time \<Rightarrow> subscription \<Rightarrow> table \<Rightarrow> table option" where
  "spec_create now sub m =
     (if ID sub \<in> dom m then None else Some (m(ID sub \<mapsto> sub\<lparr>CreatedAt := now\<rparr>)))"

definition spec_update :: "subscription \<Rightarrow> table \<Rightarrow> table" where
  "spec_update sub m =
     (case m (ID sub) of
        None \<Rightarrow> m
      | Some old \<Rightarrow> m(ID sub \<mapsto> sub\<lparr>CreatedAt := CreatedAt old\<rparr>))"

definition spec_delete :: "uuid \<Rightarrow> table \<Rightarrow> table" where
  "spec_delete i m = m(i := None)"

text \<open>The records \<open>List\<close> and \<open>Summary\<close> range over.\<close>

definition selected :: "table \<Rightarrow> (subscription \<Rightarrow> bool) \<Rightarrow> subscription set" where
  "selected m P = {r \<in> ran m. P r}"

definition spec_summary :: "string \<Rightarrow> string \<Rightarrow> uuid option \<Rightarrow> string option \<Rightarrow> table \<Rightarrow> int" where
  "spec_summary pfrom pto uid sn m =
     (\<Sum>r \<in> selected m (\<lambda>r. in_period pfrom pto r \<and> matches uid sn r). Price r)"

text \<open>
  A page of \<open>List\<close>: some ordering \<open>ys\<close> of the selected records, newest first,
  with \<open>off\<close> of them skipped and at most \<open>lim\<close> kept. Ties in \<open>CreatedAt\<close>
  may come in any order, as SQL leaves them.
\<close>

definition spec_page :: "table \<Rightarrow> int \<Rightarrow> int \<Rightarrow> uuid option \<Rightarrow> string option \<Rightarrow>
    subscription list \<Rightarrow> bool" where
  "spec_page m lim off uid sn xs \<longleftrightarrow>
     (\<exists>ys. distinct ys \<and> set ys = selected m (matches uid sn) \<and>
           sorted_wrt (\<lambda>a b. CreatedAt b \<le> CreatedAt a) ys \<and>
           xs = take (nat lim) (drop (nat off) ys))"

lemma slice_list_simps [simp]: "slice_list None = []" "slice_list (Some xs) = xs"
  by (simp_all add: slice_list_def)

end
