(* ===== verification/Pg.thy ===== *)
theory Pg
  imports Store
begin

text \<open>
  The relational backend, \<open>src/internal/store/pg.go\<close>: \<open>PostgresStore\<close> and its
  six methods, over an explicit model of the database they talk to. The state is
  the table \<open>subscriptions\<close> as a list of rows in physical (insertion) order, the
  database clock that \<open>now()\<close> reads, and whether the server is reachable.
  \<open>List\<close> and \<open>Summary\<close> build SQL text with numbered placeholders \<open>$n\<close> and an
  argument list; the model builds the same text and the database side reads it
  back with a parser (the part of PostgreSQL's grammar these queries use), binds
  the placeholders to the arguments, and evaluates the query. Query whitespace
  (the newlines and tabs of the Go raw strings) is written as single spaces.
\<close>

subsection \<open>Database state and values\<close>

datatype sql_val = VUuid uuid | VText string | VInt int | VTime time | VNull

record db =
  rows :: "subscription list"
  clock :: time
  up :: bool

definition conn_refused :: store_error where
  "conn_refused = ErrConnection ''dial tcp: connect: connection refused''"

text \<open>The value of a column of a row, \<open>None\<close> for a column the table lacks.\<close>

definition sql_col :: "subscription \<Rightarrow> string \<Rightarrow> sql_val option" where
  "sql_col r c =
     (if c = ''id'' then Some (VUuid (ID r))
      else if c = ''service_name'' then Some (VText (ServiceName r))
      else if c = ''price'' then Some (VInt (Price r))
      else if c = ''user_id'' then Some (VUuid (UserID r))
      else if c = ''start_date'' then Some (VText (StartDate r))
      else if c = ''end_date'' then Some (case EndDate r of None \<Rightarrow> VNull | Some e \<Rightarrow> VText e)
      else if c = ''created_at'' then Some (VTime (CreatedAt r))
      else None)"

subsection \<open>Building the query text (the code)\<close>

text \<open>
  \<open>sqlx.Rebind(sqlx.DOLLAR, s)\<close>: every \<open>?\<close> becomes \<open>$1\<close>, \<open>$2\<close>, \dots in turn.
\<close>

fun rebind_from :: "nat \<Rightarrow> string \<Rightarrow> string" where
  "rebind_from j [] = []"
| "rebind_from j (c # cs) =
     (if c = CHR ''?'' then CHR ''$'' # nat_str (Suc j) @ rebind_from (Suc j) cs
      else c # rebind_from j cs)"

definition rebind_dollar :: "string \<Rightarrow> string" where
  "rebind_dollar s = rebind_from 0 s"

text \<open>
  One optional filter, lines 96--103 and 136--143: a clause
  \<open>fmt.Sprintf("col=$%d", len(args)+1)\<close> whose
  placeholder number is one more than the arguments collected so far, and the
  argument appended.
\<close>

definition clause_text :: "string \<times> nat \<Rightarrow> string" where
  "clause_text p = (case p of (col, n) \<Rightarrow> col @ ''=$'' @ nat_str n)"

definition add_filter :: "string \<Rightarrow> sql_val \<Rightarrow> string list \<times> sql_val list \<Rightarrow> string list \<times> sql_val list" where
  "add_filter col v st =
     (case st of (cls, args) \<Rightarrow> (cls @ [clause_text (col, length args + 1)], args @ [v]))"

definition with_filters :: "uuid option \<Rightarrow> string option \<Rightarrow>
    string list \<times> sql_val list \<Rightarrow> string list \<times> sql_val list" where
  "with_filters uid sn st0 =
     (let st1 = (case uid of None \<Rightarrow> st0 | Some u \<Rightarrow> add_filter ''user_id'' (VUuid u) st0)
      in case sn of None \<Rightarrow> st1 | Some s \<Rightarrow> add_filter ''service_name'' (VText s) st1)"

definition list_select :: string where
  "list_select = ''select id, service_name, price, user_id, start_date, end_date, created_at from subscriptions''"

text \<open>Lines 104--109: the clauses joined by \<open>AND\<close> after \<open>WHERE\<close>, nothing when there are none.\<close>

definition where_sql :: "string list \<Rightarrow> string" where
  "where_sql cls =
     (case cls of
        [] \<Rightarrow> []
      | c # cs \<Rightarrow> '' WHERE '' @ rebind_dollar c @ concat (map (\<lambda>c. '' AND '' @ c) cs))"

definition list_query :: "int \<Rightarrow> int \<Rightarrow> string list \<Rightarrow> string" where
  "list_query lim off cls =
     list_select @ where_sql cls @ '' ORDER BY created_at DESC LIMIT '' @ int_str lim @
     '' OFFSET '' @ int_str off"

definition summary_select :: string where
  "summary_select = ''select coalesce(sum(price),0) from subscriptions where start_date >= $1 and (end_date <= $2 or end_date is null)''"

definition summary_query :: "string list \<Rightarrow> string" where
  "summary_query cls = summary_select @ concat (map (\<lambda>c. '' AND '' @ c) cls)"

subsection \<open>Reading the query text (the database side)\<close>

definition cut_prefix :: "string \<Rightarrow> string \<Rightarrow> string option" where
  "cut_prefix p s = (if take (length p) s = p then Some (drop (length p) s) else None)"

text \<open>One clause \<open>col=$n\<close>: the column name, the placeholder number, the rest of the text.\<close>

definition read_clause :: "string \<Rightarrow> ((string \<times> nat) \<times> string) option" where
  "read_clause s =
     (let col = takeWhile (\<lambda>c. c \<noteq> CHR ''='') s
      in case cut_prefix ''=$'' (dropWhile (\<lambda>c. c \<noteq> CHR ''='') s) of
           None \<Rightarrow> None
         | Some r \<Rightarrow>
             (let ds = takeWhile dec_digit r
              in if ds = [] then None else Some ((col, dec_val ds), dropWhile dec_digit r)))"

text \<open>Clauses each introduced by \<open>AND\<close>, as many as there are.\<close>

function read_ands :: "string \<Rightarrow> ((string \<times> nat) list \<times> string) option" where
  "read_ands s =
     (case cut_prefix '' AND '' s of
        None \<Rightarrow> Some ([], s)
      | Some t \<Rightarrow>
          (case read_clause t of
             None \<Rightarrow> None
           | Some (p, r) \<Rightarrow>
               (case read_ands r of
                  None \<Rightarrow> None
                | Some (ps, r') \<Rightarrow> Some (p # ps, r'))))"
  by pat_completeness auto
termination
proof (relation "measure length")
  fix s t x p r
  assume a: "cut_prefix '' AND '' s = Some t" and b: "read_clause t = Some x" and c: "(p, r) = x"
  from a have lt: "length t < length s"
    by (auto simp: cut_prefix_def split: if_splits dest: arg_cong [where f = length])
  from b c obtain w where w: "cut_prefix ''=$'' (dropWhile (\<lambda>c. c \<noteq> CHR ''='') t) = Some w"
    and r: "r = dropWhile dec_digit w"
    by (auto simp: read_clause_def Let_def split: option.splits if_splits)
  from w have "length w < length (dropWhile (\<lambda>c. c \<noteq> CHR ''='') t)"
    by (auto simp: cut_prefix_def split: if_splits dest: arg_cong [where f = length])
  also have "\<dots> \<le> length t" by (rule length_dropWhile_le)
  finally have "length r < length t" using r by (simp add: le_less_trans [OF length_dropWhile_le])
  with lt show "(r, s) \<in> measure length" by simp
qed simp

declare read_ands.simps [simp del]

definition read_where :: "string \<Rightarrow> ((string \<times> nat) list \<times> string) option" where
  "read_where s =
     (case cut_prefix '' WHERE '' s of
        None \<Rightarrow> Some ([], s)
      | Some t \<Rightarrow>
          (case read_clause t of
             None \<Rightarrow> None
           | Some (p, r) \<Rightarrow> map_option (\<lambda>(ps, r'). (p # ps, r')) (read_ands r)))"

text \<open>An integer literal, possibly negative (a \<open>LIMIT -5\<close> parses, and fails later).\<close>

definition read_int :: "string \<Rightarrow> (int \<times> string) option" where
  "read_int s =
     (let (neg, t) = (case s of [] \<Rightarrow> (False, s) | c # cs \<Rightarrow> if c = CHR ''-'' then (True, cs) else (False, s));
          ds = takeWhile dec_digit t
      in if ds = [] then None
         else Some (if neg then - int (dec_val ds) else int (dec_val ds), dropWhile dec_digit t))"

definition parse_list_query :: "string \<Rightarrow> ((string \<times> nat) list \<times> int \<times> int) option" where
  "parse_list_query q =
     (case cut_prefix list_select q of None \<Rightarrow> None | Some r0 \<Rightarrow>
      case read_where r0 of None \<Rightarrow> None | Some (ps, r1) \<Rightarrow>
      case cut_prefix '' ORDER BY created_at DESC LIMIT '' r1 of None \<Rightarrow> None | Some r2 \<Rightarrow>
      case read_int r2 of None \<Rightarrow> None | Some (lim, r3) \<Rightarrow>
      case cut_prefix '' OFFSET '' r3 of None \<Rightarrow> None | Some r4 \<Rightarrow>
      case read_int r4 of None \<Rightarrow> None | Some (off, r5) \<Rightarrow>
      if r5 = [] then Some (ps, lim, off) else None)"

definition parse_summary_query :: "string \<Rightarrow> (string \<times> nat) list option" where
  "parse_summary_query q =
     (case cut_prefix summary_select q of None \<Rightarrow> None | Some r0 \<Rightarrow>
      case read_ands r0 of None \<Rightarrow> None | Some (ps, r1) \<Rightarrow>
      if r1 = [] then Some ps else None)"

subsection \<open>Evaluating a query (the database side)\<close>

definition sql_columns :: "string list" where
  "sql_columns = [''id'', ''service_name'', ''price'', ''user_id'', ''start_date'', ''end_date'', ''created_at'']"

text \<open>
  PostgreSQL numbers a statement's parameters up to the highest \<open>$n\<close> it
  uses, and refuses a bind message that supplies a different number of values.
  \<open>nbase\<close> is the highest placeholder of the fixed part of the statement.
\<close>

definition params_ok :: "nat \<Rightarrow> (string \<times> nat) list \<Rightarrow> sql_val list \<Rightarrow> bool" where
  "params_ok nbase ps args \<longleftrightarrow>
     list_all (\<lambda>(c, n). c \<in> set sql_columns \<and> 0 < n) ps \<and>
     fold max (map snd ps) nbase = length args"

text \<open>\<open>col = $n\<close> on one row: \<open>NULL\<close> is equal to nothing.\<close>

definition sql_eq :: "sql_val option \<Rightarrow> sql_val \<Rightarrow> bool" where
  "sql_eq cv v \<longleftrightarrow> cv = Some v \<and> v \<noteq> VNull"

definition where_holds :: "sql_val list \<Rightarrow> (string \<times> nat) list \<Rightarrow> subscription \<Rightarrow> bool" where
  "where_holds args ps r \<longleftrightarrow> list_all (\<lambda>(c, n). sql_eq (sql_col r c) (args ! (n - 1))) ps"

text \<open>
  \<open>ORDER BY created_at DESC\<close>. SQL leaves the order of ties open; the model
  takes a stable sort, which keeps ties in physical order, and the contract
  (\<open>spec_page\<close>) admits any order of ties.
\<close>

definition order_desc :: "subscription list \<Rightarrow> subscription list" where
  "order_desc rs = sort_key (\<lambda>r. - int (CreatedAt r)) rs"

definition exec_list :: "string \<Rightarrow> sql_val list \<Rightarrow> subscription list \<Rightarrow> store_error + subscription list" where
  "exec_list q args tbl =
     (case parse_list_query q of
        None \<Rightarrow> Inl ErrBadQuery
      | Some (ps, lim, off) \<Rightarrow>
          if \<not> params_ok 0 ps args then Inl ErrBadQuery
          else if lim < 0 then Inl ErrNegativeLimit
          else if off < 0 then Inl ErrNegativeOffset
          else Inr (take (nat lim) (drop (nat off) (order_desc (filter (where_holds args ps) tbl)))))"

text \<open>\<open>start_date >= $1 and (end_date <= $2 or end_date is null)\<close>, strings compared byte-wise.\<close>

definition summary_base :: "sql_val list \<Rightarrow> subscription \<Rightarrow> bool" where
  "summary_base args r =
     (case args of
        VText a # VText b # _ \<Rightarrow> a \<le> StartDate r \<and> (case EndDate r of None \<Rightarrow> True | Some e \<Rightarrow> e \<le> b)
      | _ \<Rightarrow> False)"

text \<open>
  \<open>coalesce(sum(price),0)\<close>, scanned into a Go \<open>int\<close>: a sum outside the
  int64 range is an error (of the database or of \<open>Scan\<close>, by the column type).
\<close>

definition exec_summary :: "string \<Rightarrow> sql_val list \<Rightarrow> subscription list \<Rightarrow> store_error + int" where
  "exec_summary q args tbl =
     (case parse_summary_query q of
        None \<Rightarrow> Inl ErrBadQuery
      | Some ps \<Rightarrow>
          if \<not> params_ok 2 ps args then Inl ErrBadQuery
          else (let total = sum_list (map Price (filter (\<lambda>r. summary_base args r \<and> where_holds args ps r) tbl))
                in if in_int64 total then Inr total else Inl ErrOutOfRange))"

subsection \<open>The methods of PostgresStore\<close>

text \<open>Lines 31--39: \<open>insert ... values (..., now())\<close>; \<open>id\<close> is the primary key.\<close>

definition PostgresStore_Create :: "subscription \<Rightarrow> db \<Rightarrow> (db, unit) store_result" where
  "PostgresStore_Create sub d =
     (if \<not> up d then (Inl conn_refused, d)
      else if ID sub \<in> set (map ID (rows d)) then (Inl ErrUniqueViolation, d)
      else (Inr (), d\<lparr>rows := rows d @ [sub\<lparr>CreatedAt := clock d\<rparr>]\<rparr>))"

text \<open>Lines 41--60: \<open>QueryRow\<close> then \<open>Scan\<close>; no row is \<open>sql.ErrNoRows\<close>.\<close>

definition PostgresStore_Get :: "uuid \<Rightarrow> db \<Rightarrow> (db, subscription) store_result" where
  "PostgresStore_Get i d =
     (if \<not> up d then (Inl conn_refused, d)
      else case find (\<lambda>r. ID r = i) (rows d) of
             None \<Rightarrow> (Inl ErrNoRows, d)
           | Some r \<Rightarrow> (Inr r, d))"

text \<open>Lines 62--73: five columns set \<open>where id=$6\<close>; no matching row is no error.\<close>

definition set_fields :: "subscription \<Rightarrow> subscription \<Rightarrow> subscription" where
  "set_fields sub r =
     r\<lparr>ServiceName := ServiceName sub, Price := Price sub, UserID := UserID sub,
       StartDate := StartDate sub, EndDate := EndDate sub\<rparr>"

definition PostgresStore_Update :: "subscription \<Rightarrow> db \<Rightarrow> (db, unit) store_result" where
  "PostgresStore_Update sub d =
     (if \<not> up d then (Inl conn_refused, d)
      else (Inr (), d\<lparr>rows := map (\<lambda>r. if ID r = ID sub then set_fields sub r else r) (rows d)\<rparr>))"

text \<open>Lines 75--80.\<close>

definition PostgresStore_Delete :: "uuid \<Rightarrow> db \<Rightarrow> (db, unit) store_result" where
  "PostgresStore_Delete i d =
     (if \<not> up d then (Inl conn_refused, d)
      else (Inr (), d\<lparr>rows := filter (\<lambda>r. ID r \<noteq> i) (rows d)\<rparr>))"

text \<open>
  Lines 116--126: \<open>var res []model.Subscription\<close> and one \<open>append\<close> per row, so
  no row at all leaves the nil slice.
\<close>

definition scan_rows :: "subscription list \<Rightarrow> subscription list option" where
  "scan_rows rs = foldl (\<lambda>res s. Some (slice_list res @ [s])) None rs"

text \<open>Lines 82--127.\<close>

definition PostgresStore_List :: "int \<Rightarrow> int \<Rightarrow> uuid option \<Rightarrow> string option \<Rightarrow> db \<Rightarrow>
    (db, subscription list option) store_result" where
  "PostgresStore_List lim off uid sn d =
     (case with_filters uid sn ([], []) of
        (cls, args) \<Rightarrow>
          if \<not> up d then (Inl conn_refused, d)
          else case exec_list (list_query lim off cls) args (rows d) of
                 Inl e \<Rightarrow> (Inl e, d)
               | Inr rs \<Rightarrow> (Inr (scan_rows rs), d))"

text \<open>Lines 129--150.\<close>

definition PostgresStore_Summary :: "string \<Rightarrow> string \<Rightarrow> uuid option \<Rightarrow> string option \<Rightarrow> db \<Rightarrow>
    (db, int) store_result" where
  "PostgresStore_Summary pfrom pto uid sn d =
     (case with_filters uid sn ([], [VText pfrom, VText pto]) of
        (cls, args) \<Rightarrow>
          if \<not> up d then (Inl conn_refused, d)
          else (exec_summary (summary_query cls) args (rows d), d))"

text \<open>\<open>NewPostgresStore\<close>: the interface value the handlers receive.\<close>

definition pg_store :: "db store" where
  "pg_store =
     \<lparr>Create = PostgresStore_Create, Get = PostgresStore_Get, Update = PostgresStore_Update,
      Delete = PostgresStore_Delete, List = PostgresStore_List, Summary = PostgresStore_Summary\<rparr>"

declare PostgresStore_Create_def [pg_defs] PostgresStore_Get_def [pg_defs]
  PostgresStore_Update_def [pg_defs] PostgresStore_Delete_def [pg_defs]
  PostgresStore_List_def [pg_defs] PostgresStore_Summary_def [pg_defs]

subsection \<open>The contract side: filters, invariant, abstraction\<close>

text \<open>The filters a call asks for, in the order the code adds them.\<close>

definition filter_spec :: "uuid option \<Rightarrow> string option \<Rightarrow> (string \<times> sql_val) list" where
  "filter_spec uid sn =
     (case uid of None \<Rightarrow> [] | Some u \<Rightarrow> [(''user_id'', VUuid u)]) @
     (case sn of None \<Rightarrow> [] | Some s \<Rightarrow> [(''service_name'', VText s)])"

text \<open>Columns numbered with consecutive placeholders after the first \<open>k\<close>.\<close>

fun number_from :: "nat \<Rightarrow> (string \<times> sql_val) list \<Rightarrow> (string \<times> nat) list" where
  "number_from k [] = []"
| "number_from k (f # fs) = (fst f, Suc k) # number_from (Suc k) fs"

text \<open>
  The table invariant: ids are unique (the primary key), and \<open>created_at\<close>
  never decreases along the physical order and never passes the clock.
\<close>

definition db_inv :: "db \<Rightarrow> bool" where
  "db_inv d \<longleftrightarrow>
     distinct (map ID (rows d)) \<and> sorted (map CreatedAt (rows d)) \<and>
     (\<forall>r \<in> set (rows d). CreatedAt r \<le> clock d)"

text \<open>The abstraction function: the table as a map from ids to rows.\<close>

definition abs_table :: "db \<Rightarrow> table" where
  "abs_table d = map_of (map (\<lambda>r. (ID r, r)) (rows d))"

subsection \<open>Example data\<close>

text \<open>A small table the witnesses below evaluate the methods on.\<close>

definition ex_row1 :: subscription where
  "ex_row1 = \<lparr>ID = [1], ServiceName = ''Plan A'', Price = 400, UserID = [7],
              StartDate = ''07-2025'', EndDate = None, CreatedAt = 2\<rparr>"

definition ex_row2 :: subscription where
  "ex_row2 = \<lparr>ID = [2], ServiceName = ''Plan B'', Price = 250, UserID = [7],
              StartDate = ''01-2025'', EndDate = Some ''06-2025'', CreatedAt = 4\<rparr>"

definition ex_db :: db where
  "ex_db = \<lparr>rows = [ex_row1, ex_row2], clock = 5, up = True\<rparr>"

subsection \<open>Reading back the text\<close>

lemma cut_prefix_length: "cut_prefix p s = Some t \<Longrightarrow> length t = length s - length p \<and> length p \<le> length s"
  by (auto simp: cut_prefix_def split: if_splits dest: arg_cong [where f = length])

lemma read_clause_length: "read_clause s = Some (x, r) \<Longrightarrow> length r < length s"
proof -
  assume rc: "read_clause s = Some (x, r)"
  then obtain t where t: "cut_prefix ''=$'' (dropWhile (\<lambda>c. c \<noteq> CHR ''='') s) = Some t"
    and r: "r = dropWhile dec_digit t"
    by (auto simp: read_clause_def Let_def split: option.splits if_splits)
  from t have "length t + 2 \<le> length (dropWhile (\<lambda>c. c \<noteq> CHR ''='') s)"
    by (auto dest: cut_prefix_length)
  moreover have "length (dropWhile (\<lambda>c. c \<noteq> CHR ''='') s) \<le> length s"
    by (rule length_dropWhile_le)
  moreover from r have "length r \<le> length t" by (simp add: length_dropWhile_le)
  ultimately show ?thesis by arith
qed

lemma cut_prefix_simps [simp]:
  "cut_prefix [] s = Some s"
  "cut_prefix (c # p) [] = None"
  "cut_prefix (c # p) (d # s) = (if c = d then cut_prefix p s else None)"
  by (simp_all add: cut_prefix_def)

lemma cut_prefix_append [simp]: "cut_prefix p (p @ s) = Some s"
  by (simp add: cut_prefix_def)

lemma read_digits:
  assumes "rest = [] \<or> \<not> dec_digit (hd rest)"
  shows "takeWhile dec_digit (nat_str n @ rest) = nat_str n"
    and "dropWhile dec_digit (nat_str n @ rest) = rest"
proof -
  have "\<And>x. x \<in> set (nat_str n) \<Longrightarrow> dec_digit x"
    using nat_str_digits by (simp add: list_all_iff)
  then show "takeWhile dec_digit (nat_str n @ rest) = nat_str n"
    and "dropWhile dec_digit (nat_str n @ rest) = rest"
    using assms by (simp_all add: takeWhile_append2 dropWhile_append2 takeWhile_stop dropWhile_stop)
qed

lemma read_clause_text:
  assumes "CHR ''='' \<notin> set (fst p)" and "rest = [] \<or> \<not> dec_digit (hd rest)"
  shows "read_clause (clause_text p @ rest) = Some (p, rest)"
proof -
  obtain col n where p: "p = (col, n)" by (cases p)
  have ne: "\<And>x. x \<in> set col \<Longrightarrow> x \<noteq> CHR ''=''"
    using assms(1) p by auto
  have tw: "takeWhile (\<lambda>c. c \<noteq> CHR ''='') (clause_text (col, n) @ rest) = col"
    by (simp add: clause_text_def takeWhile_append2 [OF ne])
  have dw: "dropWhile (\<lambda>c. c \<noteq> CHR ''='') (clause_text (col, n) @ rest) = ''=$'' @ nat_str n @ rest"
    by (simp add: clause_text_def dropWhile_append2 [OF ne])
  show ?thesis
    unfolding p read_clause_def Let_def tw dw cut_prefix_append
    by (simp add: read_digits [OF assms(2)])
qed



lemma read_ands_text:
  assumes "list_all (\<lambda>p. CHR ''='' \<notin> set (fst p)) ps"
    and "cut_prefix '' AND '' rest = None" and "rest = [] \<or> hd rest = CHR '' ''"
  shows "read_ands (concat (map (\<lambda>c. '' AND '' @ c) (map clause_text ps)) @ rest) = Some (ps, rest)"
  using assms(1)
proof (induction ps)
  case Nil
  show ?case using assms(2) by (simp add: read_ands.simps [of rest])
next
  case (Cons p ps)
  let ?tail = "concat (map (\<lambda>c. '' AND '' @ c) (map clause_text ps)) @ rest"
  have "?tail = [] \<or> \<not> dec_digit (hd ?tail)"
    using assms(3) by (cases ps) auto
  with Cons.prems have rc: "read_clause (clause_text p @ ?tail) = Some (p, ?tail)"
    by (intro read_clause_text) auto
  from Cons.prems have ih: "read_ands ?tail = Some (ps, rest)"
    by (intro Cons.IH) simp
  have "read_ands ('' AND '' @ clause_text p @ ?tail) = Some (p # ps, rest)"
    by (subst read_ands.simps) (simp only: cut_prefix_append rc ih option.case prod.case)
  then show ?case by simp
qed

lemma read_int_text:
  assumes "rest = [] \<or> \<not> dec_digit (hd rest)"
  shows "read_int (int_str i @ rest) = Some (i, rest)"
proof (cases "i < 0")
  case True
  then show ?thesis
    by (simp add: read_int_def int_str_def read_digits [OF assms])
next
  case False
  obtain c cs where cs: "nat_str (nat i) = c # cs"
    by (cases "nat_str (nat i)") simp_all
  have "dec_digit c" using nat_str_digits [of "nat i"] cs by simp
  then have "c \<noteq> CHR ''-''" by simp
  moreover have "dec_val (c # cs) = nat i"
    using dec_val_nat_str [of "nat i"] cs by simp
  ultimately show ?thesis using False cs
    by (simp add: read_int_def int_str_def read_digits [OF assms, of "nat i", unfolded cs, simplified])
qed


lemma rebind_from_id: "CHR ''?'' \<notin> set s \<Longrightarrow> rebind_from j s = s"
  by (induction j s rule: rebind_from.induct) auto

lemma clause_text_no_qmark: "CHR ''?'' \<notin> set (fst p) \<Longrightarrow> CHR ''?'' \<notin> set (clause_text p)"
  using nat_str_digits [of "snd p"] dec_digit_not_sep(3)
  by (fastforce simp: clause_text_def list_all_iff split: prod.splits)

lemma read_where_text:
  assumes "list_all (\<lambda>p. CHR ''='' \<notin> set (fst p) \<and> CHR ''?'' \<notin> set (fst p)) ps"
    and "cut_prefix '' WHERE '' rest = None" "cut_prefix '' AND '' rest = None"
    and "rest = [] \<or> hd rest = CHR '' ''"
  shows "read_where (where_sql (map clause_text ps) @ rest) = Some (ps, rest)"
proof (cases ps)
  case Nil
  then show ?thesis using assms(2) by (simp add: read_where_def where_sql_def)
next
  case (Cons p ps')
  let ?tail = "concat (map (\<lambda>c. '' AND '' @ c) (map clause_text ps')) @ rest"
  have ands: "read_ands ?tail = Some (ps', rest)"
    using assms Cons by (intro read_ands_text) (auto simp: list_all_iff)
  have "?tail = [] \<or> \<not> dec_digit (hd ?tail)"
    using assms(4) by (cases ps') auto
  then have rc: "read_clause (clause_text p @ ?tail) = Some (p, ?tail)"
    using assms(1) Cons by (intro read_clause_text) auto
  have rb: "rebind_dollar (clause_text p) = clause_text p"
    using assms(1) Cons by (simp add: rebind_dollar_def rebind_from_id clause_text_no_qmark)
  have "where_sql (map clause_text ps) @ rest = '' WHERE '' @ clause_text p @ ?tail"
    using Cons rb by (simp only: where_sql_def list.map list.case append_assoc)
  then show ?thesis
    by (simp only: read_where_def cut_prefix_append rc ands option.case prod.case option.map
        append.simps(1) list.simps(9) Cons)
qed

lemma parse_list_query_text:
  assumes "list_all (\<lambda>p. CHR ''='' \<notin> set (fst p) \<and> CHR ''?'' \<notin> set (fst p)) ps"
  shows "parse_list_query (list_query lim off (map clause_text ps)) = Some (ps, lim, off)"
proof -
  let ?rest = "'' ORDER BY created_at DESC LIMIT '' @ int_str lim @ '' OFFSET '' @ int_str off"
  have w: "read_where (where_sql (map clause_text ps) @ ?rest) = Some (ps, ?rest)"
    using assms by (intro read_where_text) simp_all
  have l: "read_int (int_str lim @ '' OFFSET '' @ int_str off) = Some (lim, '' OFFSET '' @ int_str off)"
    by (rule read_int_text) simp
  have o: "read_int (int_str off @ []) = Some (off, [])"
    by (rule read_int_text) simp
  show ?thesis
    using w l o by (simp add: parse_list_query_def list_query_def)
qed

lemma parse_summary_query_text:
  assumes "list_all (\<lambda>p. CHR ''='' \<notin> set (fst p)) ps"
  shows "parse_summary_query (summary_query (map clause_text ps)) = Some ps"
proof -
  have "read_ands (concat (map (\<lambda>c. '' AND '' @ c) (map clause_text ps)) @ []) = Some (ps, [])"
    using assms by (intro read_ands_text) simp_all
  then show ?thesis by (simp add: parse_summary_query_def summary_query_def)
qed

subsection \<open>The built queries select what the filters say\<close>

lemma with_filters_spec:
  "with_filters uid sn (map clause_text ps0, args0) =
     (map clause_text (ps0 @ number_from (length args0) (filter_spec uid sn)),
      args0 @ map snd (filter_spec uid sn))"
  by (cases uid; cases sn) (simp_all add: with_filters_def add_filter_def filter_spec_def)


lemma where_holds_number_from:
  "where_holds (args0 @ map snd fs) (number_from (length args0) fs) r \<longleftrightarrow>
   list_all (\<lambda>(c, v). sql_eq (sql_col r c) v) fs"
proof (induction fs arbitrary: args0)
  case Nil
  then show ?case by (simp add: where_holds_def)
next
  case (Cons f fs)
  have "args0 @ map snd (f # fs) = (args0 @ [snd f]) @ map snd fs" by simp
  with Cons.IH [of "args0 @ [snd f]"] show ?case
    by (cases f) (simp add: where_holds_def nth_append)
qed

lemma filter_spec_matches:
  "list_all (\<lambda>(c, v). sql_eq (sql_col r c) v) (filter_spec uid sn) \<longleftrightarrow> matches uid sn r"
  by (cases uid; cases sn) (auto simp: filter_spec_def sql_eq_def sql_col_def matches_def)

lemma fold_max_number_from: "fold max (map snd (number_from k fs)) k = k + length fs"
  by (induction fs arbitrary: k) simp_all

lemma params_ok_filters:
  "params_ok (length args0) (number_from (length args0) (filter_spec uid sn))
     (args0 @ map snd (filter_spec uid sn))"
proof -
  have "list_all (\<lambda>(c, n). c \<in> set sql_columns \<and> 0 < n) (number_from k (filter_spec uid sn))" for k
    by (cases uid; cases sn) (simp_all add: filter_spec_def sql_columns_def)
  then show ?thesis by (simp add: params_ok_def fold_max_number_from)
qed

lemma filter_spec_columns: "list_all (\<lambda>p. CHR ''='' \<notin> set (fst p) \<and> CHR ''?'' \<notin> set (fst p)) (number_from k (filter_spec uid sn))"
  by (cases uid; cases sn) (simp_all add: filter_spec_def)

lemma exec_list_filters:
  assumes "with_filters uid sn ([], []) = (cls, args)"
  shows "exec_list (list_query lim off cls) args tbl =
    (if lim < 0 then Inl ErrNegativeLimit else if off < 0 then Inl ErrNegativeOffset
     else Inr (take (nat lim) (drop (nat off) (order_desc (filter (matches uid sn) tbl)))))"
proof -
  let ?fs = "filter_spec uid sn"
  from assms with_filters_spec [of uid sn "[]" "[]"]
  have cls: "cls = map clause_text (number_from 0 ?fs)" and args: "args = map snd ?fs"
    by simp_all
  have parse: "parse_list_query (list_query lim off cls) = Some (number_from 0 ?fs, lim, off)"
    unfolding cls by (rule parse_list_query_text [OF filter_spec_columns])
  have ok: "params_ok 0 (number_from 0 ?fs) args"
    using params_ok_filters [of "[]" uid sn] args by simp
  have wh: "where_holds args (number_from 0 ?fs) = matches uid sn"
    using where_holds_number_from [of "[]" ?fs] filter_spec_matches args by (simp add: fun_eq_iff)
  show ?thesis by (simp add: exec_list_def parse ok wh)
qed

lemma summary_base_period: "summary_base (VText a # VText b # rest) r = in_period a b r"
  by (simp add: summary_base_def in_period_def)

lemma exec_summary_filters:
  assumes "with_filters uid sn ([], [VText pfrom, VText pto]) = (cls, args)"
  shows "exec_summary (summary_query cls) args tbl =
    (let total = sum_list (map Price (filter (\<lambda>r. in_period pfrom pto r \<and> matches uid sn r) tbl))
     in if in_int64 total then Inr total else Inl ErrOutOfRange)"
proof -
  let ?fs = "filter_spec uid sn" and ?a0 = "[VText pfrom, VText pto]"
  from assms with_filters_spec [of uid sn "[]" ?a0]
  have cls: "cls = map clause_text (number_from 2 ?fs)" and args: "args = ?a0 @ map snd ?fs"
    by (simp_all add: numeral_2_eq_2)
  have parse: "parse_summary_query (summary_query cls) = Some (number_from 2 ?fs)"
    unfolding cls by (rule parse_summary_query_text) (use filter_spec_columns [of 2 uid sn] in \<open>simp add: list_all_iff\<close>)
  have ok: "params_ok 2 (number_from 2 ?fs) args"
    using params_ok_filters [of ?a0 uid sn] args by (simp add: numeral_2_eq_2)
  have wh: "where_holds args (number_from 2 ?fs) = matches uid sn"
    using where_holds_number_from [of ?a0 ?fs] filter_spec_matches args
    by (simp add: fun_eq_iff numeral_2_eq_2)
  have sb: "summary_base args = in_period pfrom pto"
    using args by (simp add: summary_base_period fun_eq_iff)
  show ?thesis by (simp add: exec_summary_def parse ok wh sb)
qed

subsection \<open>The six methods\<close>

lemma scan_rows_eq: "scan_rows rs = (if rs = [] then None else Some rs)"
proof -
  have gen: "foldl (\<lambda>res s. Some (slice_list res @ [s])) (Some xs) ys = Some (xs @ ys)" for xs ys
    by (induction ys arbitrary: xs) simp_all
  show ?thesis
    by (cases rs) (simp_all add: scan_rows_def gen)
qed

lemma slice_list_scan_rows [simp]: "slice_list (scan_rows rs) = rs"
  by (simp add: scan_rows_eq slice_list_def)

lemma PostgresStore_List_eq:
  "PostgresStore_List lim off uid sn d =
     (if \<not> up d then (Inl conn_refused, d)
      else if lim < 0 then (Inl ErrNegativeLimit, d)
      else if off < 0 then (Inl ErrNegativeOffset, d)
      else (Inr (scan_rows (take (nat lim) (drop (nat off) (order_desc (filter (matches uid sn) (rows d)))))), d))"
proof -
  obtain cls args where wf: "with_filters uid sn ([], []) = (cls, args)" by fastforce
  show ?thesis
    by (simp add: PostgresStore_List_def wf exec_list_filters [OF wf])
qed

lemma PostgresStore_Summary_eq:
  "PostgresStore_Summary pfrom pto uid sn d =
     (if \<not> up d then (Inl conn_refused, d)
      else (let total = sum_list (map Price (filter (\<lambda>r. in_period pfrom pto r \<and> matches uid sn r) (rows d)))
            in if in_int64 total then Inr total else Inl ErrOutOfRange, d))"
proof -
  obtain cls args where wf: "with_filters uid sn ([], [VText pfrom, VText pto]) = (cls, args)" by fastforce
  show ?thesis
    by (simp add: PostgresStore_Summary_def wf exec_summary_filters [OF wf])
qed

subsection \<open>Reads leave the database alone\<close>

lemma pg_reads_frame [simp]:
  "snd (PostgresStore_Get i d) = d"
  "snd (PostgresStore_List lim off uid sn d) = d"
  "snd (PostgresStore_Summary pfrom pto uid sn d) = d"
  by (simp_all add: PostgresStore_Get_def PostgresStore_List_eq PostgresStore_Summary_eq Let_def
      split: option.splits)

lemma set_fields_keys [simp]:
  "ID (set_fields sub r) = ID r" "CreatedAt (set_fields sub r) = CreatedAt r"
  by (simp_all add: set_fields_def)

subsection \<open>The invariant\<close>

lemma Create_db_inv: "db_inv d \<Longrightarrow> db_inv (snd (PostgresStore_Create sub d))"
  by (auto simp: db_inv_def PostgresStore_Create_def sorted_append)

lemma Update_db_inv:
  assumes "db_inv d"
  shows "db_inv (snd (PostgresStore_Update sub d))"
proof -
  let ?f = "\<lambda>r. if ID r = ID sub then set_fields sub r else r"
  have ids: "ID \<circ> ?f = ID" and cr: "CreatedAt \<circ> ?f = CreatedAt"
    by (simp_all add: fun_eq_iff)
  have "\<forall>r \<in> set (map ?f (rows d)). CreatedAt r \<le> clock d"
    using assms by (auto simp: db_inv_def)
  with assms show ?thesis
    by (simp add: db_inv_def PostgresStore_Update_def ids cr)
qed

lemma Delete_db_inv: "db_inv d \<Longrightarrow> db_inv (snd (PostgresStore_Delete i d))"
  by (auto simp: db_inv_def PostgresStore_Delete_def distinct_map_filter sorted_filter)

subsection \<open>Refinement of the contract\<close>

lemma map_of_rows_find: "map_of (map (\<lambda>r. (ID r, r)) xs) i = find (\<lambda>r. ID r = i) xs"
  by (induction xs) auto

lemma abs_table_find: "abs_table d i = find (\<lambda>r. ID r = i) (rows d)"
  by (simp add: abs_table_def map_of_rows_find)

lemma dom_abs_table: "dom (abs_table d) = set (map ID (rows d))"
  by (simp add: abs_table_def dom_map_of_conv_image_fst image_image)

lemma ran_abs_table: "distinct (map ID (rows d)) \<Longrightarrow> ran (abs_table d) = set (rows d)"
  by (simp add: abs_table_def ran_distinct comp_def image_image)

lemma set_fields_eq: "ID old = ID sub \<Longrightarrow> set_fields sub old = sub\<lparr>CreatedAt := CreatedAt old\<rparr>"
  by (cases old, cases sub) (simp add: set_fields_def)

lemma selected_rows:
  "distinct (map ID (rows d)) \<Longrightarrow> selected (abs_table d) P = set (filter P (rows d))"
  by (auto simp: selected_def ran_abs_table)

lemma order_desc_props:
  "set (order_desc xs) = set xs" "distinct (order_desc xs) = distinct xs"
  "sorted_wrt (\<lambda>a b. CreatedAt b \<le> CreatedAt a) (order_desc xs)"
proof -
  show "set (order_desc xs) = set xs" "distinct (order_desc xs) = distinct xs"
    by (simp_all add: order_desc_def)
  have "sorted (map (\<lambda>r. - int (CreatedAt r)) (order_desc xs))"
    unfolding order_desc_def by (rule sorted_sort_key)
  then show "sorted_wrt (\<lambda>a b. CreatedAt b \<le> CreatedAt a) (order_desc xs)"
    by (simp add: sorted_map)
qed

subsection \<open>Properties of the backend\<close>

lemma number_from_bind:
  "map (\<lambda>(c, n). (c, (a0 @ map snd fs) ! (n - 1))) (number_from (length a0) fs) = fs"
proof (induction fs arbitrary: a0)
  case Nil then show ?case by simp
next
  case (Cons f fs)
  have "a0 @ map snd (f # fs) = (a0 @ [snd f]) @ map snd fs" by simp
  with Cons.IH [of "a0 @ [snd f]"] show ?case by (simp add: nth_append)
qed

lemma ex_db_ok: "up ex_db" "db_inv ex_db"
  by (simp_all add: ex_db_def db_inv_def ex_row1_def ex_row2_def)

text \<open>
  C1 (refinement): on a reachable database (invariant, server up) and for a
  non-negative limit and offset, \<open>List\<close> succeeds and returns a page of the
  contract: the records of the abstract table that match the optional filters,
  newest first, the first \<open>off\<close> skipped and at most \<open>lim\<close> kept.
\<close>

theorem PostgresStore_List_refines:
  assumes "up d" and "db_inv d" and "0 \<le> lim" and "0 \<le> off"
  shows "\<exists>res. fst (PostgresStore_List lim off uid sn d) = Inr res \<and>
                spec_page (abs_table d) lim off uid sn (slice_list res)"
proof -
  let ?ys = "order_desc (filter (matches uid sn) (rows d))"
  from assms(2) have dist: "distinct (map ID (rows d))" by (simp add: db_inv_def)
  then have "distinct ?ys" by (simp add: order_desc_props distinct_map)
  moreover have "set ?ys = selected (abs_table d) (matches uid sn)"
    using dist by (simp add: order_desc_props selected_rows)
  ultimately have "spec_page (abs_table d) lim off uid sn (take (nat lim) (drop (nat off) ?ys))"
    unfolding spec_page_def using order_desc_props(3) by blast
  with assms(1,3,4) show ?thesis by (simp add: PostgresStore_List_eq)
qed

theorem PostgresStore_List_refines_witness:
  "up ex_db \<and> db_inv ex_db \<and> (0::int) \<le> 10 \<and> (0::int) \<le> 0 \<and>
   (\<exists>res. fst (PostgresStore_List 10 0 (Some [7]) None ex_db) = Inr res \<and>
          spec_page (abs_table ex_db) 10 0 (Some [7]) None (slice_list res))"
  using ex_db_ok PostgresStore_List_refines [OF ex_db_ok, of 10 0 "Some [7]" None] by simp

text \<open>
  C2 (refinement): \<open>Summary\<close> returns the sum of the prices of the records of the
  abstract table that start on or after \<open>period_from\<close>, end on or before
  \<open>period_to\<close> or never, and match the filters; a sum outside int64 is an error.
\<close>

theorem PostgresStore_Summary_refines:
  assumes "up d" and "db_inv d"
  shows "fst (PostgresStore_Summary pfrom pto uid sn d) =
    (let total = spec_summary pfrom pto uid sn (abs_table d)
     in if in_int64 total then Inr total else Inl ErrOutOfRange)"
proof -
  let ?P = "\<lambda>r. in_period pfrom pto r \<and> matches uid sn r"
  from assms(2) have dist: "distinct (map ID (rows d))" by (simp add: db_inv_def)
  then have "distinct (filter ?P (rows d))" by (simp add: distinct_map)
  then have "sum_list (map Price (filter ?P (rows d))) = spec_summary pfrom pto uid sn (abs_table d)"
    using dist by (simp add: spec_summary_def selected_rows sum_list_distinct_conv_sum_set)
  with assms(1) show ?thesis by (simp add: PostgresStore_Summary_eq)
qed

theorem PostgresStore_Summary_refines_witness:
  "up ex_db \<and> db_inv ex_db \<and>
   fst (PostgresStore_Summary ''01-2025'' ''12-2025'' None None ex_db) =
    (let total = spec_summary ''01-2025'' ''12-2025'' None None (abs_table ex_db)
     in if in_int64 total then Inr total else Inl ErrOutOfRange)"
  using ex_db_ok PostgresStore_Summary_refines [OF ex_db_ok] by simp

text \<open>
  C3 (refinement): \<open>Create\<close> implements the contract's insertion: it fails exactly
  when the id is taken, and otherwise the abstract table gains the record with
  \<open>created_at\<close> set to the database clock.
\<close>

theorem PostgresStore_Create_refines:
  assumes "up d"
  shows "spec_create (clock d) sub (abs_table d) =
           (case PostgresStore_Create sub d of (Inl e, d') \<Rightarrow> None | (Inr u, d') \<Rightarrow> Some (abs_table d'))"
proof (cases "ID sub \<in> set (map ID (rows d))")
  case True
  with assms show ?thesis
    by (simp add: spec_create_def PostgresStore_Create_def dom_abs_table)
next
  case False
  let ?new = "sub\<lparr>CreatedAt := clock d\<rparr>"
  have "abs_table (d\<lparr>rows := rows d @ [?new]\<rparr>) j = ((abs_table d)(ID sub \<mapsto> ?new)) j" for j
  proof (cases "j = ID sub")
    case True
    from False have "\<forall>r \<in> set (rows d). ID r \<noteq> ID sub" by (auto simp: image_iff)
    with True have "find (\<lambda>r. ID r = j) (rows d) = None" by (simp add: find_None_iff)
    with True show ?thesis by (simp add: abs_table_find find_snoc)
  next
    case False
    then show ?thesis by (simp add: abs_table_find find_snoc split: option.splits)
  qed
  with assms False show ?thesis
    by (simp add: spec_create_def PostgresStore_Create_def dom_abs_table fun_eq_iff)
qed

theorem PostgresStore_Create_refines_witness:
  "up ex_db \<and>
   spec_create (clock ex_db) (ex_row1\<lparr>ID := [3]\<rparr>) (abs_table ex_db) =
     (case PostgresStore_Create (ex_row1\<lparr>ID := [3]\<rparr>) ex_db of
        (Inl e, d') \<Rightarrow> None | (Inr u, d') \<Rightarrow> Some (abs_table d'))"
  using ex_db_ok(1) PostgresStore_Create_refines [OF ex_db_ok(1)] by simp

text \<open>
  C4 (refinement): \<open>Get\<close> returns the record the abstract table holds for the id,
  and \<open>sql.ErrNoRows\<close> when it holds none.
\<close>

theorem PostgresStore_Get_refines:
  "up d \<Longrightarrow> fst (PostgresStore_Get i d) = (case abs_table d i of None \<Rightarrow> Inl ErrNoRows | Some r \<Rightarrow> Inr r)"
  by (simp add: PostgresStore_Get_def abs_table_find split: option.splits)

theorem PostgresStore_Get_refines_witness:
  "up ex_db \<and> fst (PostgresStore_Get [2] ex_db) = (case abs_table ex_db [2] of None \<Rightarrow> Inl ErrNoRows | Some r \<Rightarrow> Inr r)"
  using ex_db_ok(1) PostgresStore_Get_refines [OF ex_db_ok(1)] by simp

text \<open>
  C5 (refinement): \<open>Update\<close> implements the contract's full replacement: the
  record with the id gets every mutable field of the argument and keeps its
  \<open>created_at\<close>; an id the table lacks leaves it unchanged, without error.
\<close>

theorem PostgresStore_Update_refines:
  assumes "up d"
  shows "abs_table (snd (PostgresStore_Update sub d)) = spec_update sub (abs_table d)"
proof -
  let ?f = "\<lambda>r. if ID r = ID sub then set_fields sub r else r"
  have same: "find (\<lambda>r. ID r = i) (map ?f xs) = map_option (set_fields sub) (find (\<lambda>r. ID r = i) xs)"
    if "i = ID sub" for i xs
    using that by (induction xs) auto
  have other: "find (\<lambda>r. ID r = i) (map ?f xs) = find (\<lambda>r. ID r = i) xs"
    if "i \<noteq> ID sub" for i xs
    using that by (induction xs) auto
  have fo: "find (\<lambda>r. ID r = ID sub) xs = Some r \<Longrightarrow> ID r = ID sub" for xs r
    by (auto simp: find_Some_iff)
  show ?thesis
  proof
    fix i
    show "abs_table (snd (PostgresStore_Update sub d)) i = spec_update sub (abs_table d) i"
    proof (cases "i = ID sub")
      case True
      with assms show ?thesis
        by (auto simp: PostgresStore_Update_def spec_update_def abs_table_find same
            set_fields_eq dest: fo split: option.splits)
    next
      case False
      with assms show ?thesis
        by (simp add: PostgresStore_Update_def spec_update_def abs_table_find other split: option.splits)
    qed
  qed
qed

theorem PostgresStore_Update_refines_witness:
  "up ex_db \<and>
   abs_table (snd (PostgresStore_Update (ex_row2\<lparr>ID := [1]\<rparr>) ex_db)) =
     spec_update (ex_row2\<lparr>ID := [1]\<rparr>) (abs_table ex_db)"
  using ex_db_ok(1) PostgresStore_Update_refines [OF ex_db_ok(1)] by simp

text \<open>C6 (refinement): \<open>Delete\<close> removes the id from the abstract table, present or not.\<close>

theorem PostgresStore_Delete_refines:
  assumes "up d"
  shows "abs_table (snd (PostgresStore_Delete i d)) = spec_delete i (abs_table d)"
proof -
  have h: "find (\<lambda>r. ID r = j) (filter (\<lambda>r. ID r \<noteq> i) xs) =
             (if j = i then None else find (\<lambda>r. ID r = j) xs)" for j xs
    by (induction xs) auto
  show ?thesis
  proof
    fix j
    show "abs_table (snd (PostgresStore_Delete i d)) j = spec_delete i (abs_table d) j"
      using assms h [of j "rows d"] by (simp add: PostgresStore_Delete_def spec_delete_def abs_table_find)
  qed
qed

theorem PostgresStore_Delete_refines_witness:
  "up ex_db \<and> abs_table (snd (PostgresStore_Delete [9] ex_db)) = spec_delete [9] (abs_table ex_db)"
  using ex_db_ok(1) PostgresStore_Delete_refines [OF ex_db_ok(1)] by simp

text \<open>
  C8 (roundtrip): the text \<open>List\<close> sends reads back, on the database side, as the
  filter clauses with their placeholders, the limit and the offset.
\<close>

theorem list_query_roundtrip:
  "parse_list_query (list_query lim off (fst (with_filters uid sn ([], [])))) =
     Some (number_from 0 (filter_spec uid sn), lim, off)"
  using with_filters_spec [of uid sn "[]" "[]"]
  by (simp add: parse_list_query_text filter_spec_columns)

text \<open>C9 (roundtrip): the same for the text \<open>Summary\<close> sends.\<close>

theorem summary_query_roundtrip:
  "parse_summary_query (summary_query (fst (with_filters uid sn ([], [VText pfrom, VText pto])))) =
     Some (number_from 2 (filter_spec uid sn))"
proof -
  have "list_all (\<lambda>p. CHR ''='' \<notin> set (fst p)) (number_from 2 (filter_spec uid sn))"
    using filter_spec_columns [of 2 uid sn] by (simp add: list_all_iff)
  then show ?thesis
    using with_filters_spec [of uid sn "[]" "[VText pfrom, VText pto]"]
    by (simp add: parse_summary_query_text numeral_2_eq_2)
qed

text \<open>
  C10 (safety): the placeholders the builder writes bind to the right arguments:
  the statement uses exactly as many parameters as are passed, every \<open>$n\<close> refers
  to an argument that exists, and the argument at that position is the value the
  call filters its column on.
\<close>

theorem filters_bind_placeholders:
  assumes "with_filters uid sn ([], a0) = (cls, args)"
  shows "cls = map clause_text (number_from (length a0) (filter_spec uid sn)) \<and>
         params_ok (length a0) (number_from (length a0) (filter_spec uid sn)) args \<and>
         map (\<lambda>(c, n). (c, args ! (n - 1))) (number_from (length a0) (filter_spec uid sn)) = filter_spec uid sn"
proof -
  from assms with_filters_spec [of uid sn "[]" a0]
  have "cls = map clause_text (number_from (length a0) (filter_spec uid sn))"
    and args: "args = a0 @ map snd (filter_spec uid sn)" by simp_all
  with params_ok_filters [of a0 uid sn] number_from_bind [of a0 "filter_spec uid sn"]
  show ?thesis by simp
qed

theorem filters_bind_placeholders_witness:
  "with_filters (Some [7]) (Some ''Plan A'') ([], [VText ''01-2025'', VText ''12-2025'']) =
     ([''user_id=$3'', ''service_name=$4''],
      [VText ''01-2025'', VText ''12-2025'', VUuid [7], VText ''Plan A'']) \<and>
   [''user_id=$3'', ''service_name=$4''] =
     map clause_text (number_from (length [VText ''01-2025'', VText ''12-2025''])
       (filter_spec (Some [7]) (Some ''Plan A''))) \<and>
   params_ok (length [VText ''01-2025'', VText ''12-2025''])
     (number_from (length [VText ''01-2025'', VText ''12-2025'']) (filter_spec (Some [7]) (Some ''Plan A'')))
     [VText ''01-2025'', VText ''12-2025'', VUuid [7], VText ''Plan A''] \<and>
   map (\<lambda>(c, n). (c, [VText ''01-2025'', VText ''12-2025'', VUuid [7], VText ''Plan A''] ! (n - 1)))
     (number_from (length [VText ''01-2025'', VText ''12-2025'']) (filter_spec (Some [7]) (Some ''Plan A''))) =
     filter_spec (Some [7]) (Some ''Plan A'')"
proof -
  have w: "with_filters (Some [7]) (Some ''Plan A'') ([], [VText ''01-2025'', VText ''12-2025'']) =
     ([''user_id=$3'', ''service_name=$4''],
      [VText ''01-2025'', VText ''12-2025'', VUuid [7], VText ''Plan A''])"
    by code_simp
  from w filters_bind_placeholders [OF w] show ?thesis by (rule conjI)
qed

end
