(* ===== verification/GoLib.thy ===== *)
theory GoLib
  imports Model
begin

text \<open>
  The library functions the handlers of \<open>src/internal/handler/handler.go\<close> call,
  modelled from their Go sources (they are not part of this repository):
  \<open>url.Values.Get\<close>, \<open>strconv.Atoi\<close> (with the \<open>ParseUint\<close>/\<open>ParseInt\<close> slow path
  and the fast path for short inputs, on a 64-bit platform), \<open>uuid.Parse\<close> and
  \<open>UUID.String\<close> of \<open>github.com/google/uuid\<close>, and the JSON values that
  \<open>json.Encoder\<close> writes. Go strings are byte strings; an Isabelle \<open>char\<close> is a byte.
\<close>

subsection \<open>url.Values.Get\<close>

text \<open>The first value given for the key, or the empty string.\<close>

definition query_get :: "(string \<times> string) list \<Rightarrow> string \<Rightarrow> string" where
  "query_get q k = (case find (\<lambda>kv. fst kv = k) q of None \<Rightarrow> [] | Some kv \<Rightarrow> snd kv)"

subsection \<open>strconv.Atoi\<close>

datatype num_error = ErrSyntax | ErrRange

definition max_uint64 :: nat where
  "max_uint64 = 2 ^ 64 - 1"

text \<open>The loop of \<open>ParseUint(s, 10, 64)\<close> over a non-empty string.\<close>

fun parse_uint_loop :: "nat \<Rightarrow> string \<Rightarrow> nat \<times> num_error option" where
  "parse_uint_loop n [] = (n, None)"
| "parse_uint_loop n (c # cs) =
     (if \<not> dec_digit c then (0, Some ErrSyntax)
      else if max_uint64 div 10 + 1 \<le> n then (max_uint64, Some ErrRange)
      else (let n1 = 10 * n + digit_val c
            in if max_uint64 < n1 then (max_uint64, Some ErrRange) else parse_uint_loop n1 cs))"

definition parse_uint :: "string \<Rightarrow> nat \<times> num_error option" where
  "parse_uint s = (if s = [] then (0, Some ErrSyntax) else parse_uint_loop 0 s)"

text \<open>\<open>ParseInt(s, 10, 64)\<close>: an optional sign, then \<open>ParseUint\<close>, clamped to int64.\<close>

definition parse_int :: "string \<Rightarrow> int \<times> num_error option" where
  "parse_int s =
     (if s = [] then (0, Some ErrSyntax)
      else
        let neg = (hd s = CHR ''-'');
            s' = (if hd s = CHR ''+'' \<or> hd s = CHR ''-'' then tl s else s);
            (un, err) = parse_uint s'
        in if err \<noteq> None \<and> err \<noteq> Some ErrRange then (0, err)
           else if \<not> neg \<and> 2 ^ 63 \<le> un then (int64_max, Some ErrRange)
           else if neg \<and> 2 ^ 63 < un then (int64_min, Some ErrRange)
           else (if neg then - int un else int un, err))"

text \<open>The fast path's digit loop: \<open>ch -= '0'; if ch > 9 { syntax error }; n = n*10 + ch\<close>.\<close>

fun atoi_fast_loop :: "int \<Rightarrow> string \<Rightarrow> int option" where
  "atoi_fast_loop n [] = Some n"
| "atoi_fast_loop n (c # cs) =
     (if dec_digit c then atoi_fast_loop (10 * n + int (digit_val c)) cs else None)"

text \<open>
  \<open>strconv.Atoi\<close> on a 64-bit platform: strings of 1 to 18 bytes take the fast
  path, all others \<open>ParseInt\<close>. The result is the value and the error, which the
  handlers throw away.
\<close>

definition go_Atoi :: "string \<Rightarrow> int \<times> num_error option" where
  "go_Atoi s =
     (if 0 < length s \<and> length s < 19 then
        (let signed = (hd s = CHR ''-'' \<or> hd s = CHR ''+'');
             t = (if signed then tl s else s)
         in if t = [] then (0, Some ErrSyntax)
            else case atoi_fast_loop 0 t of
                   None \<Rightarrow> (0, Some ErrSyntax)
                 | Some n \<Rightarrow> (if hd s = CHR ''-'' then - n else n, None))
      else parse_int s)"

subsection \<open>uuid.Parse and UUID.String\<close>

text \<open>The table \<open>xvalues\<close>: the value of a hexadecimal digit of either case.\<close>

definition xvalue :: "char \<Rightarrow> nat option" where
  "xvalue c =
     (let k = of_char c :: nat in
      if 48 \<le> k \<and> k \<le> 57 then Some (k - 48)
      else if 97 \<le> k \<and> k \<le> 102 then Some (k - 87)
      else if 65 \<le> k \<and> k \<le> 70 then Some (k - 55)
      else None)"

definition xtob :: "char \<Rightarrow> char \<Rightarrow> byte option" where
  "xtob c1 c2 =
     (case (xvalue c1, xvalue c2) of
        (Some a, Some b) \<Rightarrow> Some (word_of_nat (16 * a + b))
      | _ \<Rightarrow> None)"

definition uuid_offsets :: "nat list" where
  "uuid_offsets = [0, 2, 4, 6, 9, 11, 14, 16, 19, 21, 24, 26, 28, 30, 32, 34]"

text \<open>The canonical form \<open>xxxxxxxx-xxxx-xxxx-xxxx-xxxxxxxxxxxx\<close> at the start of \<open>s\<close>.\<close>

definition parse36 :: "string \<Rightarrow> uuid option" where
  "parse36 s =
     (if s ! 8 = CHR ''-'' \<and> s ! 13 = CHR ''-'' \<and> s ! 18 = CHR ''-'' \<and> s ! 23 = CHR ''-''
      then those (map (\<lambda>x. xtob (s ! x) (s ! Suc x)) uuid_offsets)
      else None)"

definition ascii_lower :: "char \<Rightarrow> char" where
  "ascii_lower c = (let k = of_char c :: nat in if 65 \<le> k \<and> k \<le> 90 then char_of (k + 32) else c)"

text \<open>
  \<open>uuid.Parse\<close>: by length, the canonical form (36), with an \<open>urn:uuid:\<close> prefix
  of any case (45), between two characters of which only the first is dropped and
  neither is checked (38), or 32 bare hex digits.
\<close>

definition uuid_parse :: "string \<Rightarrow> uuid option" where
  "uuid_parse s =
     (if length s = 36 then parse36 s
      else if length s = 45 then
        (if map ascii_lower (take 9 s) = ''urn:uuid:'' then parse36 (drop 9 s) else None)
      else if length s = 38 then parse36 (drop 1 s)
      else if length s = 32 then those (map (\<lambda>i. xtob (s ! (2 * i)) (s ! Suc (2 * i))) [0..<16])
      else None)"

definition hex_digit :: "nat \<Rightarrow> char" where
  "hex_digit k = (if k < 10 then char_of (48 + k) else char_of (87 + k))"

definition hex_byte :: "byte \<Rightarrow> string" where
  "hex_byte b = [hex_digit (unat b div 16), hex_digit (unat b mod 16)]"

text \<open>\<open>UUID.String\<close>: lower-case hexadecimal in groups of 8, 4, 4, 4 and 12 digits.\<close>

definition uuid_string :: "uuid \<Rightarrow> string" where
  "uuid_string u =
     concat (map hex_byte (take 4 u)) @ ''-'' @ concat (map hex_byte (take 2 (drop 4 u))) @ ''-'' @
     concat (map hex_byte (take 2 (drop 6 u))) @ ''-'' @ concat (map hex_byte (take 2 (drop 8 u))) @ ''-'' @
     concat (map hex_byte (drop 10 u))"

subsection \<open>JSON values\<close>

text \<open>
  What \<open>json.Encoder.Encode\<close> writes, as a value; a \<open>time.Time\<close> is written in
  RFC 3339, kept here as the timestamp itself.
\<close>

datatype json = JNull | JInt int | JStr string | JTime time | JArr "json list" | JObj "(string \<times> json) list"

text \<open>The struct tags of \<open>model.Subscription\<close>; \<open>end_date\<close> is \<open>omitempty\<close>.\<close>

definition json_sub :: "subscription \<Rightarrow> json" where
  "json_sub r =
     JObj ([(''id'', JStr (uuid_string (ID r))), (''service_name'', JStr (ServiceName r)),
            (''price'', JInt (Price r)), (''user_id'', JStr (uuid_string (UserID r))),
            (''start_date'', JStr (StartDate r))] @
           (case EndDate r of None \<Rightarrow> [] | Some e \<Rightarrow> [(''end_date'', JStr e)]) @
           [(''created_at'', JTime (CreatedAt r))])"

text \<open>A slice: \<open>null\<close> when nil, an array otherwise.\<close>

definition json_slice :: "subscription list option \<Rightarrow> json" where
  "json_slice s = (case s of None \<Rightarrow> JNull | Some xs \<Rightarrow> JArr (map json_sub xs))"

subsection \<open>strconv.Atoi: the digit loops\<close>

lemma digit_val_lt: "dec_digit c \<Longrightarrow> digit_val c < 10"
proof -
  assume "dec_digit c"
  then have "of_char c \<le> (57::nat)" by (simp add: dec_digit_def)
  then show ?thesis unfolding digit_val_def by linarith
qed

abbreviation dec_step :: "nat \<Rightarrow> char \<Rightarrow> nat" where
  "dec_step n c \<equiv> 10 * n + digit_val c"

lemma dec_fold_mono: "n \<le> foldl dec_step n t"
proof (induction t arbitrary: n)
  case Nil then show ?case by simp
next
  case (Cons c t)
  have "n \<le> dec_step n c" by simp
  also have "\<dots> \<le> foldl dec_step (dec_step n c) t" by (rule Cons.IH)
  finally show ?case by simp
qed

lemma uint_loop_step:
  assumes "dec_digit c" and "dec_step n c < 10 ^ 18"
  shows "parse_uint_loop n (c # t) = parse_uint_loop (dec_step n c) t"
proof -
  have a: "\<not> max_uint64 div 10 + 1 \<le> n" using assms(2) by (simp add: max_uint64_def)
  have b: "\<not> max_uint64 < dec_step n c" using assms(2) by (simp add: max_uint64_def)
  show ?thesis
    using assms(1) a b by (simp only: parse_uint_loop.simps Let_def not_True_eq_False not_not if_False)
qed

lemma parse_uint_loop_digits:
  assumes "list_all dec_digit t" and "foldl dec_step n t < 10 ^ 18"
  shows "parse_uint_loop n t = (foldl dec_step n t, None)"
  using assms
proof (induction t arbitrary: n)
  case Nil then show ?case by simp
next
  case (Cons c t)
  have "dec_step n c \<le> foldl dec_step (dec_step n c) t" by (rule dec_fold_mono)
  moreover from Cons.prems(2) have "foldl dec_step (dec_step n c) t < 10 ^ 18" by (simp only: foldl_Cons)
  ultimately have small: "dec_step n c < 10 ^ 18" by (rule le_less_trans)
  from Cons.prems(1) have dc: "dec_digit c" and dt: "list_all dec_digit t" by simp_all
  from dc small have "parse_uint_loop n (c # t) = parse_uint_loop (dec_step n c) t"
    by (rule uint_loop_step)
  moreover from dt \<open>foldl dec_step (dec_step n c) t < 10 ^ 18\<close>
  have "parse_uint_loop (dec_step n c) t = (foldl dec_step (dec_step n c) t, None)"
    by (rule Cons.IH)
  ultimately show ?case by (simp only: foldl_Cons)
qed
lemma dec_fold_bound: "list_all dec_digit t \<Longrightarrow> foldl dec_step n t < (n + 1) * 10 ^ length t"
proof (induction t arbitrary: n)
  case Nil then show ?case by simp
next
  case (Cons c t)
  then have d: "digit_val c < 10" by (simp add: digit_val_lt)
  from Cons have "foldl dec_step (dec_step n c) t < (dec_step n c + 1) * 10 ^ length t" by simp
  also have "\<dots> \<le> (n + 1) * 10 * 10 ^ length t"
    using d by (intro mult_le_mono1) simp
  also have "\<dots> = (n + 1) * 10 ^ length (c # t)" by (simp add: distrib_right mult.assoc)
  finally show ?case by (simp only: foldl_Cons)
qed

lemma atoi_fast_loop_digits:
  "atoi_fast_loop (int n) t = (if list_all dec_digit t then Some (int (foldl dec_step n t)) else None)"
proof (induction t arbitrary: n)
  case Nil then show ?case by simp
next
  case (Cons c t)
  show ?case
  proof (cases "dec_digit c")
    case False then show ?thesis by simp
  next
    case True
    have "10 * int n + int (digit_val c) = int (dec_step n c)" by simp
    then have "atoi_fast_loop (int n) (c # t) = atoi_fast_loop (int (dec_step n c)) t"
      using True by (simp only: atoi_fast_loop.simps if_True)
    also have "\<dots> = (if list_all dec_digit t then Some (int (foldl dec_step (dec_step n c) t)) else None)"
      by (rule Cons.IH)
    finally show ?thesis using True by (simp only: list.pred_inject(2) foldl_Cons simp_thms)
  qed
qed

lemma parse_uint_loop_syntax:
  assumes "\<not> list_all dec_digit t" and "(n + 1) * 10 ^ length t \<le> 10 ^ 18"
  shows "parse_uint_loop n t = (0, Some ErrSyntax)"
  using assms
proof (induction t arbitrary: n)
  case Nil then show ?case by simp
next
  case (Cons c t)
  show ?case
  proof (cases "dec_digit c")
    case False then show ?thesis by simp
  next
    case True
    then have d: "digit_val c < 10" by (rule digit_val_lt)
    have "(dec_step n c + 1) * 10 ^ length t \<le> (n + 1) * 10 * 10 ^ length t"
      using d by (intro mult_le_mono1) simp
    also have "\<dots> = (n + 1) * 10 ^ length (c # t)" by (simp add: distrib_right mult.assoc)
    also have "\<dots> \<le> 10 ^ 18" by (rule Cons.prems(2))
    finally have le: "(dec_step n c + 1) * 10 ^ length t \<le> 10 ^ 18" .
    have "(dec_step n c + 1) * 1 \<le> (dec_step n c + 1) * 10 ^ length t"
      by (intro mult_le_mono2) simp
    from order_trans [OF this le] have small: "dec_step n c < 10 ^ 18" by simp
    from True Cons.prems(1) have "\<not> list_all dec_digit t" by simp
    then have "parse_uint_loop (dec_step n c) t = (0, Some ErrSyntax)"
      using le by (rule Cons.IH)
    moreover from True small have "parse_uint_loop n (c # t) = parse_uint_loop (dec_step n c) t"
      by (rule uint_loop_step)
    ultimately show ?thesis by (simp only:)
  qed
qed


lemma dec_val_small:
  assumes "list_all dec_digit t" and "length t \<le> 18"
  shows "dec_val t < 10 ^ 18"
proof -
  have "dec_val t < (0 + 1) * 10 ^ length t"
    using dec_fold_bound [OF assms(1), of 0] by (simp add: dec_val_def)
  also have "\<dots> \<le> 10 ^ 18"
    using power_increasing [OF assms(2), of "10::nat"] by simp
  finally show ?thesis .
qed

lemma pow18_lt_pow63: "(10::nat) ^ 18 < 2 ^ 63"
  by simp

lemma go_Atoi_fast_path:
  assumes "0 < length s" and "length s < 19"
  shows "go_Atoi s = parse_int s"
proof -
  let ?signed = "hd s = CHR ''-'' \<or> hd s = CHR ''+''"
  let ?t = "if ?signed then tl s else s"
  have s_ne: "s \<noteq> []" using assms(1) by auto
  have short: "length ?t \<le> 18" using assms(2) by auto
  have fast: "go_Atoi s =
      (if ?t = [] then (0, Some ErrSyntax)
       else case atoi_fast_loop 0 ?t of
              None \<Rightarrow> (0, Some ErrSyntax)
            | Some n \<Rightarrow> (if hd s = CHR ''-'' then - n else n, None))"
    using assms by (simp only: go_Atoi_def Let_def if_True simp_thms)
  have slow: "parse_int s =
      (case parse_uint ?t of (un, err) \<Rightarrow>
         if err \<noteq> None \<and> err \<noteq> Some ErrRange then (0, err)
         else if \<not> hd s = CHR ''-'' \<and> 2 ^ 63 \<le> un then (int64_max, Some ErrRange)
         else if hd s = CHR ''-'' \<and> 2 ^ 63 < un then (int64_min, Some ErrRange)
         else (if hd s = CHR ''-'' then - int un else int un, err))"
    using s_ne by (simp add: parse_int_def Let_def disj_commute)
  show ?thesis
  proof (cases "?t = []")
    case True
    then show ?thesis using fast slow by (simp add: parse_uint_def)
  next
    case False
    show ?thesis
    proof (cases "list_all dec_digit ?t")
      case True
      have v: "dec_val ?t < 10 ^ 18" using True short by (rule dec_val_small)
      have a: "atoi_fast_loop 0 ?t = Some (int (dec_val ?t))"
        using atoi_fast_loop_digits [of 0 ?t] True by (simp add: dec_val_def)
      have "foldl dec_step 0 ?t < 10 ^ 18" using v by (simp add: dec_val_def)
      with True have "parse_uint_loop 0 ?t = (dec_val ?t, None)"
        unfolding dec_val_def by (rule parse_uint_loop_digits)
      then have p: "parse_uint ?t = (dec_val ?t, None)"
        using False by (simp add: parse_uint_def)
      have n63: "\<not> 2 ^ 63 \<le> dec_val ?t" using v pow18_lt_pow63 by linarith
      show ?thesis using False fast slow a p n63 by simp
    next
      case notdig: False
      have "(0 + 1) * 10 ^ length ?t \<le> (10::nat) ^ 18"
        using power_increasing [OF short, of "10::nat"] by simp
      with notdig have "parse_uint_loop 0 ?t = (0, Some ErrSyntax)"
        by (rule parse_uint_loop_syntax)
      then have p: "parse_uint ?t = (0, Some ErrSyntax)"
        using False by (simp add: parse_uint_def)
      have "atoi_fast_loop 0 ?t = None"
        using atoi_fast_loop_digits [of 0 ?t] notdig by simp
      then show ?thesis using False fast slow p by simp
    qed
  qed
qed


lemma parse_int_int64: "in_int64 (fst (parse_int s))"
proof -
  obtain un err where p: "parse_uint (if hd s = CHR ''+'' \<or> hd s = CHR ''-'' then tl s else s) = (un, err)"
    by fastforce
  have "int un \<le> 2 ^ 63 - 1" if "\<not> 2 ^ 63 \<le> un" using that by simp
  moreover have "- (2 ^ 63) \<le> - int un" if "\<not> 2 ^ 63 < un" using that by simp
  ultimately show ?thesis
    using p by (auto simp: parse_int_def Let_def in_int64_def int64_min_def int64_max_def)
qed

lemma atoi_fast_loop_bound: "length t \<le> 18 \<Longrightarrow> atoi_fast_loop 0 t = Some n \<Longrightarrow> 0 \<le> n \<and> n < 10 ^ 18"
proof -
  assume len: "length t \<le> 18" and a: "atoi_fast_loop 0 t = Some n"
  from a atoi_fast_loop_digits [of 0 t] have dig: "list_all dec_digit t" and n: "n = int (dec_val t)"
    by (simp_all add: dec_val_def split: if_splits)
  have "dec_val t < 10 ^ 18" using dig len by (rule dec_val_small)
  then have "int (dec_val t) < int (10 ^ 18)" by (simp only: of_nat_less_iff)
  with n show ?thesis by simp
qed

lemma go_Atoi_int64: "in_int64 (fst (go_Atoi s))"
proof (cases "0 < length s \<and> length s < 19")
  case False
  then have "go_Atoi s = parse_int s" unfolding go_Atoi_def by (rule if_not_P)
  then show ?thesis using parse_int_int64 [of s] by simp
next
  case True
  let ?t = "if hd s = CHR ''-'' \<or> hd s = CHR ''+'' then tl s else s"
  have short: "length ?t \<le> 18" using True by auto
  have "(10::int) ^ 18 \<le> 2 ^ 63 - 1" by simp
  with atoi_fast_loop_bound [OF short] have
    "atoi_fast_loop 0 ?t = Some n \<Longrightarrow> in_int64 n \<and> in_int64 (- n)" for n
    by (fastforce simp: in_int64_def int64_min_def int64_max_def)
  then show ?thesis
    using True by (auto simp: go_Atoi_def Let_def in_int64_def int64_min_def int64_max_def
        split: option.splits)
qed

lemma go_Atoi_syntax_zero: "snd (go_Atoi s) = Some ErrSyntax \<Longrightarrow> fst (go_Atoi s) = 0"
  by (auto simp: go_Atoi_def parse_int_def Let_def split: if_splits option.splits prod.splits)

subsection \<open>uuid: printing and parsing back\<close>

lemma those_length: "those xs = Some ys \<Longrightarrow> length ys = length xs"
  by (induction xs arbitrary: ys) (auto split: option.splits)

lemma parse36_valid: "parse36 s = Some u \<Longrightarrow> valid_uuid u"
proof -
  assume "parse36 s = Some u"
  then have "those (map (\<lambda>x. xtob (s ! x) (s ! Suc x)) uuid_offsets) = Some u"
    by (simp add: parse36_def split: if_splits)
  from those_length [OF this] show ?thesis by (simp add: valid_uuid_def uuid_offsets_def)
qed

lemma uuid_parse_valid: "uuid_parse s = Some u \<Longrightarrow> valid_uuid u"
proof -
  assume p: "uuid_parse s = Some u"
  consider "parse36 s = Some u" | "parse36 (drop 9 s) = Some u" | "parse36 (drop 1 s) = Some u"
    | "those (map (\<lambda>i. xtob (s ! (2 * i)) (s ! Suc (2 * i))) [0..<16]) = Some u"
    using p by (simp add: uuid_parse_def split: if_splits)
  then show ?thesis
    by cases (auto simp: valid_uuid_def dest: parse36_valid those_length)
qed

lemma of_char_hex_digit: "k < 16 \<Longrightarrow> of_char (hex_digit k) = (if k < 10 then 48 + k else 87 + k)"
  by (simp add: hex_digit_def of_char_of)

lemma xvalue_hex_digit: "k < 16 \<Longrightarrow> xvalue (hex_digit k) = Some k"
  by (simp add: xvalue_def of_char_hex_digit Let_def)

lemma xtob_hex_byte: "xtob (hex_digit (unat b div 16)) (hex_digit (unat b mod 16)) = Some b"
proof -
  have "unat b < 256" using unsigned_less [of b] by simp
  then have hi: "unat b div 16 < 16" by simp
  have lo: "unat b mod 16 < 16" by simp
  have "word_of_nat (16 * (unat b div 16) + unat b mod 16) = (word_of_nat (unat b) :: byte)"
    by simp
  then show ?thesis
    by (simp add: xtob_def xvalue_hex_digit [OF hi] xvalue_hex_digit [OF lo])
qed

lemma length16_cases:
  assumes "length (u::'a list) = 16"
  obtains b0 b1 b2 b3 b4 b5 b6 b7 b8 b9 b10 b11 b12 b13 b14 b15
  where "u = [b0, b1, b2, b3, b4, b5, b6, b7, b8, b9, b10, b11, b12, b13, b14, b15]"
  using assms by (auto simp: length_Suc_conv numeral_eq_Suc)

lemma uuid_parse_string:
  assumes "valid_uuid u"
  shows "uuid_parse (uuid_string u) = Some u"
proof -
  from assms obtain b0 b1 b2 b3 b4 b5 b6 b7 b8 b9 b10 b11 b12 b13 b14 b15
    where u: "u = [b0, b1, b2, b3, b4, b5, b6, b7, b8, b9, b10, b11, b12, b13, b14, b15]"
    by (auto simp: valid_uuid_def elim: length16_cases)
  show ?thesis
    by (simp add: u uuid_parse_def uuid_string_def parse36_def hex_byte_def uuid_offsets_def xtob_hex_byte)
qed

lemma uuid_string_length: "valid_uuid u \<Longrightarrow> length (uuid_string u) = 36"
  by (auto simp: valid_uuid_def uuid_string_def hex_byte_def elim!: length16_cases)

lemma uuid_string_roundtrip: "uuid_parse (uuid_string u) = Some u \<longleftrightarrow> valid_uuid u"
  using uuid_parse_valid uuid_parse_string by blast

end
