(* ===== verification/Handler.thy ===== *)
theory Handler
  imports Store GoLib
begin

text \<open>
  The HTTP handlers, \<open>src/internal/handler/handler.go\<close>: one function per method of
  \<open>Handler\<close>, written against the \<open>store\<close> interface record of theory \<open>Store\<close>, so
  that they run over any backend state \<open>'s\<close>. A request is what the handlers read
  of it: the route parameter \<open>id\<close>, the outcome of decoding the JSON body into a
  \<open>model.Subscription\<close> (decoding itself is the library's), and the query
  parameters in order. A response is the status code and what is written to the
  body. \<open>uuid.New()\<close> is the caller's choice, passed in as \<open>fresh\<close>. The logger
  only writes logs and is not modelled.
\<close>

record request =
  url_id :: string
  req_body :: "string + subscription"
  url_query :: "(string \<times> string) list"

datatype resp_body = RText string | RJson json | REmpty

record response =
  status :: nat
  resp_body :: resp_body

text \<open>\<open>http.Error(w, msg, code)\<close>: the status and the message with a newline.\<close>

definition http_error :: "nat \<Rightarrow> string \<Rightarrow> response" where
  "http_error code msg = \<lparr>status = code, resp_body = RText (msg @ ''\<newline>'')\<rparr>"

text \<open>\<open>json.NewEncoder(w).Encode(v)\<close> without \<open>WriteHeader\<close>: status 200.\<close>

definition json_ok :: "nat \<Rightarrow> json \<Rightarrow> response" where
  "json_ok code v = \<lparr>status = code, resp_body = RJson v\<rparr>"

subsection \<open>Query parameters\<close>

text \<open>
  Lines 91--95: \<open>limit, _ := strconv.Atoi(...)\<close> with the error ignored, then
  10 when the value is 0.
\<close>

definition list_limit :: "(string \<times> string) list \<Rightarrow> int" where
  "list_limit q = (let limit = fst (go_Atoi (query_get q ''limit'')) in if limit = 0 then 10 else limit)"

definition list_offset :: "(string \<times> string) list \<Rightarrow> int" where
  "list_offset q = fst (go_Atoi (query_get q ''offset''))"

text \<open>
  Lines 96--106, repeated in lines 123--133: a \<open>user_id\<close> that does not parse is
  dropped, an empty \<open>service_name\<close> is no filter.
\<close>

definition opt_user_id :: "(string \<times> string) list \<Rightarrow> uuid option" where
  "opt_user_id q = (let u = query_get q ''user_id'' in if u \<noteq> [] then uuid_parse u else None)"

definition opt_service_name :: "(string \<times> string) list \<Rightarrow> string option" where
  "opt_service_name q = (let s = query_get q ''service_name'' in if s \<noteq> [] then Some s else None)"

subsection \<open>The handlers\<close>

text \<open>Lines 24--39.\<close>

definition Handler_Create :: "'s store \<Rightarrow> uuid \<Rightarrow> request \<Rightarrow> 's \<Rightarrow> response \<times> 's" where
  "Handler_Create st fresh req s =
     (case req_body req of
        Inl msg \<Rightarrow> (http_error 400 msg, s)
      | Inr sub \<Rightarrow>
          (let sub' = sub\<lparr>ID := fresh\<rparr>
           in case Create st sub' s of
                (Inl e, s') \<Rightarrow> (http_error 500 (error_text e), s')
              | (Inr _, s') \<Rightarrow> (json_ok 201 (json_sub sub'), s')))"

text \<open>Lines 41--54: every error of \<open>Get\<close> is answered with 404.\<close>

definition Handler_Get :: "'s store \<Rightarrow> request \<Rightarrow> 's \<Rightarrow> response \<times> 's" where
  "Handler_Get st req s =
     (case uuid_parse (url_id req) of
        None \<Rightarrow> (http_error 400 ''invalid id'', s)
      | Some i \<Rightarrow>
          (case Get st i s of
             (Inl e, s') \<Rightarrow> (http_error 404 (error_text e), s')
           | (Inr sub, s') \<Rightarrow> (json_ok 200 (json_sub sub), s')))"

text \<open>Lines 56--74: the path id overrides the body's.\<close>

definition Handler_Update :: "'s store \<Rightarrow> request \<Rightarrow> 's \<Rightarrow> response \<times> 's" where
  "Handler_Update st req s =
     (case uuid_parse (url_id req) of
        None \<Rightarrow> (http_error 400 ''invalid id'', s)
      | Some i \<Rightarrow>
          (case req_body req of
             Inl msg \<Rightarrow> (http_error 400 msg, s)
           | Inr sub \<Rightarrow>
               (let sub' = sub\<lparr>ID := i\<rparr>
                in case Update st sub' s of
                     (Inl e, s') \<Rightarrow> (http_error 500 (error_text e), s')
                   | (Inr _, s') \<Rightarrow> (json_ok 200 (json_sub sub'), s'))))"

text \<open>Lines 76--88.\<close>

definition Handler_Delete :: "'s store \<Rightarrow> request \<Rightarrow> 's \<Rightarrow> response \<times> 's" where
  "Handler_Delete st req s =
     (case uuid_parse (url_id req) of
        None \<Rightarrow> (http_error 400 ''invalid id'', s)
      | Some i \<Rightarrow>
          (case Delete st i s of
             (Inl e, s') \<Rightarrow> (http_error 500 (error_text e), s')
           | (Inr _, s') \<Rightarrow> (\<lparr>status = 204, resp_body = REmpty\<rparr>, s')))"

text \<open>Lines 90--113.\<close>

definition Handler_List :: "'s store \<Rightarrow> request \<Rightarrow> 's \<Rightarrow> response \<times> 's" where
  "Handler_List st req s =
     (let q = url_query req
      in case List st (list_limit q) (list_offset q) (opt_user_id q) (opt_service_name q) s of
           (Inl e, s') \<Rightarrow> (http_error 500 (error_text e), s')
         | (Inr res, s') \<Rightarrow> (json_ok 200 (json_slice res), s'))"

text \<open>Lines 115--140.\<close>

definition Handler_Summary :: "'s store \<Rightarrow> request \<Rightarrow> 's \<Rightarrow> response \<times> 's" where
  "Handler_Summary st req s =
     (let q = url_query req; pfrom = query_get q ''period_from''; pto = query_get q ''period_to''
      in if pfrom = [] \<or> pto = [] then (http_error 400 ''period_from and period_to required'', s)
         else case Summary st pfrom pto (opt_user_id q) (opt_service_name q) s of
                (Inl e, s') \<Rightarrow> (http_error 500 (error_text e), s')
              | (Inr t, s') \<Rightarrow> (json_ok 200 (JObj [(''total'', JInt t)]), s'))"

declare Handler_Create_def [handler_defs] Handler_Get_def [handler_defs]
  Handler_Update_def [handler_defs] Handler_Delete_def [handler_defs]
  Handler_List_def [handler_defs] Handler_Summary_def [handler_defs]

text \<open>A backend that answers every call with a fixed value, for the examples.\<close>

definition const_store :: "unit store" where
  "const_store =
     \<lparr>Create = \<lambda>_ s. (Inr (), s), Get = \<lambda>_ s. (Inl ErrNoRows, s), Update = \<lambda>_ s. (Inr (), s),
      Delete = \<lambda>_ s. (Inr (), s), List = \<lambda>lim off uid sn s. (Inr (Some []), s),
      Summary = \<lambda>pf pt uid sn s. (Inr 0, s)\<rparr>"

subsection \<open>Lemmas over any backend\<close>

lemma query_get_filter:
  "query_get (filter (\<lambda>kv. fst kv \<noteq> k) q) k' = (if k' = k then [] else query_get q k')"
  by (induction q) (auto simp: query_get_def)

lemma Handler_state:
  "snd (Handler_Create st fresh req s) =
     (case req_body req of Inl _ \<Rightarrow> s | Inr sub \<Rightarrow> snd (Create st (sub\<lparr>ID := fresh\<rparr>) s))"
  "snd (Handler_Get st req s) =
     (case uuid_parse (url_id req) of None \<Rightarrow> s | Some i \<Rightarrow> snd (Get st i s))"
  "snd (Handler_Update st req s) =
     (case uuid_parse (url_id req) of None \<Rightarrow> s | Some i \<Rightarrow>
        case req_body req of Inl _ \<Rightarrow> s | Inr sub \<Rightarrow> snd (Update st (sub\<lparr>ID := i\<rparr>) s))"
  "snd (Handler_Delete st req s) =
     (case uuid_parse (url_id req) of None \<Rightarrow> s | Some i \<Rightarrow> snd (Delete st i s))"
  "snd (Handler_List st req s) =
     snd (List st (list_limit (url_query req)) (list_offset (url_query req))
            (opt_user_id (url_query req)) (opt_service_name (url_query req)) s)"
  "snd (Handler_Summary st req s) =
     (let q = url_query req in
      if query_get q ''period_from'' = [] \<or> query_get q ''period_to'' = [] then s
      else snd (Summary st (query_get q ''period_from'') (query_get q ''period_to'')
                  (opt_user_id q) (opt_service_name q) s))"
  by (auto simp: handler_defs Let_def split: sum.splits option.splits prod.splits)

text \<open>
  C11 (functional): the page size \<open>List\<close> asks the store for is never 0, and a
  \<open>limit\<close> parameter that is absent or not a number gives the default 10.
\<close>

theorem list_limit_default:
  "list_limit q \<noteq> 0 \<and> (snd (go_Atoi (query_get q ''limit'')) = Some ErrSyntax \<longrightarrow> list_limit q = 10)"
  using go_Atoi_syntax_zero [of "query_get q ''limit''"] by (simp add: list_limit_def Let_def)

theorem list_limit_default_witness:
  "snd (go_Atoi (query_get [(''limit'', ''ten'')] ''limit'')) = Some ErrSyntax \<and>
   list_limit [(''limit'', ''ten'')] = 10"
proof -
  have a: "go_Atoi ''ten'' = (0, Some ErrSyntax)" by code_simp
  have q: "query_get [(''limit'', ''ten'')] ''limit'' = ''ten''" by (simp add: query_get_def)
  show ?thesis using list_limit_default [of "[(''limit'', ''ten'')]"] by (simp only: q a) simp
qed

text \<open>
  C12 (functional): a \<open>user_id\<close> parameter that is not a UUID is ignored: \<open>List\<close>
  answers as if the parameter were absent, over any backend.
\<close>

theorem Handler_List_bad_user_id:
  assumes "uuid_parse (query_get (url_query req) ''user_id'') = None"
  shows "Handler_List st req s = Handler_List st (req\<lparr>url_query := filter (\<lambda>kv. fst kv \<noteq> ''user_id'') (url_query req)\<rparr>) s"
  using assms
  by (simp add: Handler_List_def list_limit_def list_offset_def opt_user_id_def opt_service_name_def
      query_get_filter Let_def)

theorem Handler_List_bad_user_id_witness:
  "uuid_parse (query_get [(''user_id'', ''bob''), (''limit'', ''5'')] ''user_id'') = None \<and>
   Handler_List const_store \<lparr>url_id = [], req_body = Inl [], url_query = [(''user_id'', ''bob''), (''limit'', ''5'')]\<rparr> () =
   Handler_List const_store \<lparr>url_id = [], req_body = Inl [], url_query = [(''limit'', ''5'')]\<rparr> ()"
proof -
  have u: "uuid_parse (query_get [(''user_id'', ''bob''), (''limit'', ''5'')] ''user_id'') = None"
    by (simp add: query_get_def uuid_parse_def)
  show ?thesis
    using Handler_List_bad_user_id
      [of "\<lparr>url_id = [], req_body = Inl [], url_query = [(''user_id'', ''bob''), (''limit'', ''5'')]\<rparr>"
          const_store "()"] u by simp
qed

end
