(* ===== verification/Service.thy ===== *)
theory Service
  imports Pg Handler
begin

text \<open>
  The running service, \<open>src/cmd/server/main.go\<close>: the routes of \<open>main\<close> wired to
  the handlers over the PostgreSQL backend, and the service as a state machine.
  The state is the database; a step is an HTTP request served, or the environment
  moving the database clock forward or taking the database down or up. The
  reachable states are those of some run from an empty table, and the table
  invariant \<open>db_inv\<close> holds in all of them (rule induction over the runs).
  Configuration, logging and shutdown are modelled in theory \<open>Bootstrap\<close>.
\<close>

datatype http_method = GET | POST | PUT | DELETE

text \<open>A request to \<open>/subscriptions\<close>; \<open>path\<close> holds the segments after it.\<close>

record http_request =
  req_method :: http_method
  path :: "string list"
  body :: "string + subscription"
  query :: "(string \<times> string) list"

datatype endpoint = EpCreate | EpList | EpGet string | EpUpdate string | EpDelete string | EpSummary

text \<open>
  Lines 54--61, with chi's matching: a static segment (\<open>summary\<close>) is tried
  before the parameter \<open>{id}\<close>, and a method the static route lacks falls through
  to the parameter route. \<open>r.Route\<close> mounts the sub-router, which sees both
  \<open>/subscriptions\<close> and \<open>/subscriptions/\<close> (path \<open>[[]]\<close>) as its \<open>/\<close>.
\<close>

fun route :: "http_method \<Rightarrow> string list \<Rightarrow> endpoint option" where
  "route POST [] = Some EpCreate"
| "route GET [] = Some EpList"
| "route POST [x] = (if x = [] then Some EpCreate else None)"
| "route GET [x] = (if x = ''summary'' then Some EpSummary else if x = [] then Some EpList else Some (EpGet x))"
| "route PUT [x] = (if x = [] then None else Some (EpUpdate x))"
| "route DELETE [x] = (if x = [] then None else Some (EpDelete x))"
| "route _ _ = None"

definition to_request :: "http_request \<Rightarrow> string \<Rightarrow> request" where
  "to_request r i = \<lparr>url_id = i, req_body = body r, url_query = query r\<rparr>"

text \<open>chi's answer to a path no route has (404) or a method the path lacks (405).\<close>

definition not_routed :: "http_request \<Rightarrow> response" where
  "not_routed r =
     (if list_ex (\<lambda>m. route m (path r) \<noteq> None) [GET, POST, PUT, DELETE]
      then \<lparr>status = 405, resp_body = REmpty\<rparr>
      else \<lparr>status = 404, resp_body = RText ''404 page not found\<newline>''\<rparr>)"

definition serve :: "uuid \<Rightarrow> http_request \<Rightarrow> db \<Rightarrow> response \<times> db" where
  "serve fresh r d =
     (case route (req_method r) (path r) of
        None \<Rightarrow> (not_routed r, d)
      | Some EpCreate \<Rightarrow> Handler_Create pg_store fresh (to_request r []) d
      | Some EpList \<Rightarrow> Handler_List pg_store (to_request r []) d
      | Some (EpGet i) \<Rightarrow> Handler_Get pg_store (to_request r i) d
      | Some (EpUpdate i) \<Rightarrow> Handler_Update pg_store (to_request r i) d
      | Some (EpDelete i) \<Rightarrow> Handler_Delete pg_store (to_request r i) d
      | Some EpSummary \<Rightarrow> Handler_Summary pg_store (to_request r []) d)"

datatype event = Request uuid http_request | Tick nat | DbUp bool

text \<open>One step of the system: \<open>uuid.New()\<close> supplies \<open>fresh\<close> for a request.\<close>

fun sys_step :: "event \<Rightarrow> db \<Rightarrow> db" where
  "sys_step (Request fresh r) d = snd (serve fresh r d)"
| "sys_step (Tick k) d = d\<lparr>clock := clock d + k\<rparr>"
| "sys_step (DbUp b) d = d\<lparr>up := b\<rparr>"

definition empty_db :: "time \<Rightarrow> db" where
  "empty_db t = \<lparr>rows = [], clock = t, up = True\<rparr>"

inductive reachable :: "db \<Rightarrow> bool" where
  init: "reachable (empty_db t)"
| step: "reachable d \<Longrightarrow> reachable (sys_step ev d)"

text \<open>A run: the events in order, one step each.\<close>

definition run :: "event list \<Rightarrow> db \<Rightarrow> db" where
  "run evs d = fold sys_step evs d"

definition http_req :: "http_method \<Rightarrow> string list \<Rightarrow> string + subscription \<Rightarrow>
    (string \<times> string) list \<Rightarrow> http_request" where
  "http_req m p b q = \<lparr>req_method = m, path = p, body = b, query = q\<rparr>"

text \<open>A \<open>POST /subscriptions\<close> request carrying a record, for the examples.\<close>

definition ex_post :: "subscription \<Rightarrow> http_request" where
  "ex_post sub = \<lparr>req_method = POST, path = [], body = Inr sub, query = []\<rparr>"

subsection \<open>The invariant holds in every reachable state\<close>

lemma db_inv_empty: "db_inv (empty_db t)"
  by (simp add: db_inv_def empty_db_def)

lemma pg_store_db_inv:
  assumes "db_inv d"
  shows "db_inv (snd (Create pg_store sub d))" "db_inv (snd (Get pg_store i d))"
    "db_inv (snd (Update pg_store sub d))" "db_inv (snd (Delete pg_store i d))"
    "db_inv (snd (List pg_store lim off uid sn d))" "db_inv (snd (Summary pg_store pf pt uid sn d))"
  using assms by (simp_all add: pg_store_def Create_db_inv Update_db_inv Delete_db_inv)

lemma serve_db_inv: "db_inv d \<Longrightarrow> db_inv (snd (serve fresh r d))"
  by (auto simp: serve_def Handler_state pg_store_db_inv Let_def
      split: option.splits endpoint.splits sum.splits)

lemma sys_step_db_inv: "db_inv d \<Longrightarrow> db_inv (sys_step ev d)"
proof (cases ev)
  case (Request fresh r)
  then show "db_inv d \<Longrightarrow> ?thesis" by (simp add: serve_db_inv)
next
  case (Tick k)
  then show "db_inv d \<Longrightarrow> ?thesis" by (auto simp: db_inv_def)
next
  case (DbUp b)
  then show "db_inv d \<Longrightarrow> ?thesis" by (simp add: db_inv_def)
qed

text \<open>
  C7 (invariant): in every state the service reaches from an empty table, by any
  sequence of requests, clock ticks and database outages, the ids are distinct, the rows are
  in insertion order of \<open>created_at\<close>, and no row is stamped after the clock.
\<close>

theorem reachable_db_inv: "reachable d \<Longrightarrow> db_inv d"
proof (induction rule: reachable.induct)
  case (init t)
  show ?case by (rule db_inv_empty)
next
  case (step d ev)
  from step.IH show ?case by (rule sys_step_db_inv)
qed

theorem reachable_db_inv_witness:
  "reachable (sys_step (Request (replicate 16 2) (ex_post ex_row2))
     (sys_step (Tick 3) (sys_step (Request (replicate 16 1) (ex_post ex_row1)) (empty_db 0)))) \<and>
   db_inv (sys_step (Request (replicate 16 2) (ex_post ex_row2))
     (sys_step (Tick 3) (sys_step (Request (replicate 16 1) (ex_post ex_row1)) (empty_db 0))))"
proof -
  have r: "reachable (sys_step (Request (replicate 16 2) (ex_post ex_row2))
     (sys_step (Tick 3) (sys_step (Request (replicate 16 1) (ex_post ex_row1)) (empty_db 0))))"
    by (intro reachable.step reachable.init)
  show ?thesis using r reachable_db_inv [OF r] by (rule conjI)
qed

subsection \<open>Routing\<close>

lemma uuid_string_route:
  assumes "valid_uuid u"
  shows "uuid_string u \<noteq> ''summary''" "uuid_string u \<noteq> []"
  using uuid_string_length [OF assms] by auto

lemma serve_http_req:
  "serve f (http_req POST [] b q) d = Handler_Create pg_store f \<lparr>url_id = [], req_body = b, url_query = q\<rparr> d"
  "serve f (http_req GET [] b q) d = Handler_List pg_store \<lparr>url_id = [], req_body = b, url_query = q\<rparr> d"
  "serve f (http_req GET [''summary''] b q) d =
     Handler_Summary pg_store \<lparr>url_id = [], req_body = b, url_query = q\<rparr> d"
  "x \<noteq> ''summary'' \<Longrightarrow> x \<noteq> [] \<Longrightarrow>
     serve f (http_req GET [x] b q) d = Handler_Get pg_store \<lparr>url_id = x, req_body = b, url_query = q\<rparr> d"
  "x \<noteq> [] \<Longrightarrow>
     serve f (http_req PUT [x] b q) d = Handler_Update pg_store \<lparr>url_id = x, req_body = b, url_query = q\<rparr> d"
  "x \<noteq> [] \<Longrightarrow>
     serve f (http_req DELETE [x] b q) d = Handler_Delete pg_store \<lparr>url_id = x, req_body = b, url_query = q\<rparr> d"
  by (simp_all add: serve_def http_req_def to_request_def)

end
