(* ===== verification/MockStore.thy ===== *)
theory MockStore
  imports Handler "HOL-Library.AList"
begin

text \<open>
  The test double of \<open>src/internal/handler/handler_test.go\<close>: \<open>mockStore\<close>, whose
  state is a Go map from ids to records, here an association list with one entry
  per key (the order of the list stands for Go's unspecified map iteration order),
  and the three tests the file runs against the handlers. The mock is a second
  instance of the \<open>store\<close> record, so every lemma of theory \<open>Handler\<close> applies to it.
  Its lemmas state the mock's invariant (one entry per key), the instances of the
  tests for every state and id, and what the mock leaves out of the contract of
  theory \<open>Store\<close>.
\<close>

type_synonym mock_state = "(uuid \<times> subscription) list"

text \<open>Lines 28--31: \<open>m.items[sub.ID] = *sub\<close>, an overwrite when the key is present.\<close>

definition mock_Create :: "subscription \<Rightarrow> mock_state \<Rightarrow> (mock_state, unit) store_result" where
  "mock_Create sub m = (Inr (), AList.update (ID sub) sub m)"

text \<open>Lines 33--39.\<close>

definition mock_Get :: "uuid \<Rightarrow> mock_state \<Rightarrow> (mock_state, subscription) store_result" where
  "mock_Get i m = (case map_of m i of None \<Rightarrow> (Inl ErrNotFound, m) | Some sub \<Rightarrow> (Inr sub, m))"

text \<open>Lines 41--44.\<close>

definition mock_Update :: "subscription \<Rightarrow> mock_state \<Rightarrow> (mock_state, unit) store_result" where
  "mock_Update sub m = (Inr (), AList.update (ID sub) sub m)"

text \<open>Lines 46--49.\<close>

definition mock_Delete :: "uuid \<Rightarrow> mock_state \<Rightarrow> (mock_state, unit) store_result" where
  "mock_Delete i m = (Inr (), AList.delete i m)"

text \<open>
  Lines 51--57: every value, paging and filters ignored, in a slice that starts
  as \<open>[]model.Subscription{}\<close> and so is never nil.
\<close>

definition mock_List :: "int \<Rightarrow> int \<Rightarrow> uuid option \<Rightarrow> string option \<Rightarrow> mock_state \<Rightarrow>
    (mock_state, subscription list option) store_result" where
  "mock_List lim off uid sn m = (Inr (Some (map snd m)), m)"

text \<open>Lines 59--61.\<close>

definition mock_Summary :: "string \<Rightarrow> string \<Rightarrow> uuid option \<Rightarrow> string option \<Rightarrow> mock_state \<Rightarrow>
    (mock_state, int) store_result" where
  "mock_Summary pfrom pto uid sn m = (Inr 1000, m)"

text \<open>\<open>newMockStore()\<close> and the method table of \<open>*mockStore\<close>.\<close>

definition mock_store :: "mock_state store" where
  "mock_store =
     \<lparr>Create = mock_Create, Get = mock_Get, Update = mock_Update, Delete = mock_Delete,
      List = mock_List, Summary = mock_Summary\<rparr>"

definition newMockStore :: mock_state where
  "newMockStore = []"

text \<open>An HTTP request as \<open>httptest.NewRequest\<close> builds it, with the route id and query.\<close>

definition test_request :: "string \<Rightarrow> string + subscription \<Rightarrow> (string \<times> string) list \<Rightarrow> request" where
  "test_request i b q = \<lparr>url_id = i, req_body = b, url_query = q\<rparr>"

text \<open>Lines 69--75: the record of \<open>TestCreateSubscription\<close>; its \<open>ID\<close> and \<open>UserID\<close> come from \<open>uuid.New()\<close>.\<close>

definition test_sub :: "uuid \<Rightarrow> uuid \<Rightarrow> subscription" where
  "test_sub i u = \<lparr>ID = i, ServiceName = ''Yandex Plus'', Price = 400, UserID = u,
                   StartDate = ''07-2025'', EndDate = None, CreatedAt = 0\<rparr>"

text \<open>Keys are distinct (a map) and each record sits under its own id.\<close>

definition mock_inv :: "mock_state \<Rightarrow> bool" where
  "mock_inv m \<longleftrightarrow> distinct (map fst m) \<and> (\<forall>(k, v) \<in> set m. ID v = k)"

subsection \<open>The mock on the abstract table\<close>

lemma mock_inv_empty: "mock_inv newMockStore"
  by (simp add: mock_inv_def newMockStore_def)

lemma set_update_sub: "set (AList.update k v m) \<subseteq> insert (k, v) (set m)"
  by (induction m) auto

lemma set_delete_sub: "set (AList.delete k m) \<subseteq> set m"
  by (induction m) auto

lemma mock_ops_inv:
  assumes "mock_inv m"
  shows "mock_inv (snd (mock_Create sub m))" "mock_inv (snd (mock_Update sub m))"
    "mock_inv (snd (mock_Delete i m))"
  using assms set_update_sub [of "ID sub" sub m] set_delete_sub [of i m]
  by (fastforce simp: mock_inv_def mock_Create_def mock_Update_def mock_Delete_def
      distinct_update distinct_delete)+

lemma mock_ran:
  assumes "mock_inv m"
  shows "set (map snd m) = ran (map_of m)" and "length m = card (dom (map_of m))"
proof -
  from assms have d: "distinct (map fst m)" by (simp add: mock_inv_def)
  show "set (map snd m) = ran (map_of m)" using ran_distinct [OF d] by simp
  have "dom (map_of m) = set (map fst m)" by (simp add: dom_map_of_conv_image_fst)
  then show "length m = card (dom (map_of m))" using distinct_card [OF d] by simp
qed

text \<open>
  The mock's \<open>List\<close> ignores limit, offset and filters and
  returns every stored record exactly once, in a non-nil slice.
\<close>

theorem mock_List_ran:
  assumes "mock_inv m"
  shows "\<exists>xs. fst (List mock_store lim off uid sn m) = Inr (Some xs) \<and>
           set xs = ran (map_of m) \<and> length xs = card (dom (map_of m))"
  using mock_ran [OF assms] by (simp add: mock_store_def mock_List_def)


theorem mock_List_ran_witness:
  "mock_inv [(replicate 16 1, test_sub (replicate 16 1) (replicate 16 2))] \<and>
   (\<exists>xs. fst (List mock_store 10 0 None None [(replicate 16 1, test_sub (replicate 16 1) (replicate 16 2))]) =
      Inr (Some xs) \<and> set xs = ran (map_of [(replicate 16 1 :: uuid, test_sub (replicate 16 1) (replicate 16 2))]) \<and>
      length xs = card (dom (map_of [(replicate 16 1 :: uuid, test_sub (replicate 16 1) (replicate 16 2))])))"
proof -
  have i: "mock_inv [(replicate 16 1, test_sub (replicate 16 1) (replicate 16 2))]"
    by (simp add: mock_inv_def test_sub_def)
  show ?thesis using i mock_List_ran [OF i, of 10 0 None None] by (rule conjI)
qed

text \<open>
  C23 (functional): \<open>TestCreateSubscription\<close> for every body and state: the
  handler answers 201 with the record under the fresh id, and the mock stores it.
\<close>

theorem mock_test_create:
  "Handler_Create mock_store fresh (test_request [] (Inr sub) []) m =
     (json_ok 201 (json_sub (sub\<lparr>ID := fresh\<rparr>)), AList.update fresh (sub\<lparr>ID := fresh\<rparr>) m)"
  by (simp add: Handler_Create_def test_request_def mock_store_def mock_Create_def Let_def)

text \<open>
  C24 (error): \<open>TestGetNotFound\<close> for every state and every id the mock lacks:
  \<open>GET\<close> with the printed id answers 404.
\<close>

theorem mock_test_get_not_found:
  assumes "valid_uuid i" and "map_of m i = None"
  shows "status (fst (Handler_Get mock_store (test_request (uuid_string i) (Inl []) []) m)) = 404"
  using assms
  by (simp add: Handler_Get_def test_request_def mock_store_def mock_Get_def uuid_parse_string
      http_error_def)

theorem mock_test_get_not_found_witness:
  "valid_uuid (replicate 16 9) \<and> map_of newMockStore (replicate 16 9) = None \<and>
   status (fst (Handler_Get mock_store (test_request (uuid_string (replicate 16 9)) (Inl []) [])
     newMockStore)) = 404"
proof -
  have v: "valid_uuid (replicate 16 (9::byte))" by (simp add: valid_uuid_def)
  have n: "map_of newMockStore (replicate 16 9) = None" by (simp add: newMockStore_def)
  show ?thesis using v n mock_test_get_not_found [OF v n] by simp
qed

text \<open>
  \<open>TestSummary\<close> for every state and non-empty period:
  the handler answers 200 with the mock's fixed total.
\<close>

theorem mock_test_summary:
  assumes "pf \<noteq> []" and "pt \<noteq> []"
  shows "Handler_Summary mock_store
           (test_request [] (Inl []) [(''period_from'', pf), (''period_to'', pt)]) m =
         (json_ok 200 (JObj [(''total'', JInt 1000)]), m)"
  using assms
  by (simp add: Handler_Summary_def test_request_def mock_store_def mock_Summary_def query_get_def
      Let_def)

theorem mock_test_summary_witness:
  "''01-2025'' \<noteq> [] \<and> ''12-2025'' \<noteq> [] \<and>
   Handler_Summary mock_store
     (test_request [] (Inl []) [(''period_from'', ''01-2025''), (''period_to'', ''12-2025'')]) newMockStore =
   (json_ok 200 (JObj [(''total'', JInt 1000)]), newMockStore)"
  using mock_test_summary [of "''01-2025''" "''12-2025''" newMockStore] by simp

end
