(* ===== verification/PqScan.thy ===== *)
theory PqScan
  imports Prelude
begin

text \<open>
  The scanner of the PostgreSQL driver \<open>lib/pq\<close>, which the program uses through
  \<open>sql.Open("postgres", dsn)\<close>: one iteration of \<open>parseOpts\<close> (\<open>conn.go\<close>), which
  reads one \<open>key=value\<close> setting of a connection string. Whitespace is skipped
  before a key, around the \<open>=\<close>, and after the \<open>=\<close> even when the value is empty.
  An unquoted value runs to the next whitespace, a backslash escaping the next
  character; a value in single quotes runs to the closing quote. Whitespace is
  \<open>unicode.IsSpace\<close> on ASCII. The loop itself, \<open>parse_opts\<close>, is in theory
  \<open>Bootstrap\<close>; the lemmas here give it its termination measure.
\<close>

definition is_space :: "char \<Rightarrow> bool" where
  "is_space c \<longleftrightarrow> c \<in> set [CHR '' '', CHR 0x09, CHR 0x0A, CHR 0x0B, CHR 0x0C, CHR 0x0D]"

fun read_unquoted :: "string \<Rightarrow> string + (string \<times> string)" where
  "read_unquoted [] = Inr ([], [])"
| "read_unquoted (c # cs) =
     (if is_space c then Inr ([], c # cs)
      else if c = CHR 0x5C then
        (case cs of [] \<Rightarrow> Inl ''missing character after backslash''
         | d # ds \<Rightarrow> map_sum id (\<lambda>(v, r). (d # v, r)) (read_unquoted ds))
      else map_sum id (\<lambda>(v, r). (c # v, r)) (read_unquoted cs))"

fun read_quoted :: "string \<Rightarrow> string + (string \<times> string)" where
  "read_quoted [] = Inl ''unterminated quoted string literal in connection string''"
| "read_quoted (c # cs) =
     (if c = CHR 0x27 then Inr ([], cs)
      else if c = CHR 0x5C then
        (case cs of [] \<Rightarrow> Inl ''unterminated quoted string literal in connection string''
         | d # ds \<Rightarrow> map_sum id (\<lambda>(v, r). (d # v, r)) (read_quoted ds))
      else map_sum id (\<lambda>(v, r). (c # v, r)) (read_quoted cs))"

definition read_value :: "string \<Rightarrow> string + (string \<times> string)" where
  "read_value s = (case s of c # cs \<Rightarrow> if c = CHR 0x27 then read_quoted cs else read_unquoted s
                   | [] \<Rightarrow> Inr ([], []))"

definition key_char :: "char \<Rightarrow> bool" where
  "key_char c \<longleftrightarrow> \<not> is_space c \<and> c \<noteq> CHR ''=''"

definition opt_step :: "string \<Rightarrow> (string + ((string \<times> string) \<times> string)) option" where
  "opt_step s =
     (let s1 = dropWhile is_space s;
          key = takeWhile key_char s1;
          r1 = dropWhile is_space (dropWhile key_char s1);
          r3 = dropWhile is_space (tl r1)
      in if s1 = [] then None
         else if r1 = [] \<or> hd r1 \<noteq> CHR ''='' then Some (Inl (''missing \"=\" after '' @ key))
         else if r3 = [] then Some (Inr ((key, []), []))
         else Some (map_sum id (\<lambda>(v, r4). ((key, v), r4)) (read_value r3)))"

subsection \<open>Each step consumes input\<close>

lemma map_sum_Inr_cons:
  "map_sum id (\<lambda>(v, r). (d # v, r)) x = Inr (w, r) \<longleftrightarrow> (\<exists>v. x = Inr (v, r) \<and> w = d # v)"
  by (cases x) auto

lemma read_unquoted_length: "read_unquoted s = Inr (v, r) \<Longrightarrow> length r \<le> length s"
proof (induction s arbitrary: v rule: read_unquoted.induct)
  case 1 then show ?case by simp
next
  case (2 c cs)
  show ?case
  proof (cases "is_space c")
    case True with "2.prems" show ?thesis by simp
  next
    case sp: False
    show ?thesis
    proof (cases "c = CHR 0x5C")
      case True
      with sp "2.prems" obtain d ds v' where cs: "cs = d # ds" and "read_unquoted ds = Inr (v', r)"
        by (auto simp: map_sum_Inr_cons split: list.splits)
      with "2.IH"(1) [OF sp True cs] sp True show ?thesis by fastforce
    next
      case False
      with sp "2.prems" obtain v' where "read_unquoted cs = Inr (v', r)"
        by (auto simp: map_sum_Inr_cons)
      with "2.IH"(2) [OF sp False] show ?thesis by fastforce
    qed
  qed
qed


lemma read_quoted_length: "read_quoted s = Inr (v, r) \<Longrightarrow> length r < length s"
proof (induction s arbitrary: v rule: read_quoted.induct)
  case 1 then show ?case by simp
next
  case (2 c cs)
  show ?case
  proof (cases "c = CHR 0x27")
    case True with "2.prems" show ?thesis by simp
  next
    case q: False
    show ?thesis
    proof (cases "c = CHR 0x5C")
      case True
      with q "2.prems" obtain d ds v' where cs: "cs = d # ds" and "read_quoted ds = Inr (v', r)"
        by (auto simp: map_sum_Inr_cons split: list.splits)
      with "2.IH"(1) [OF q True cs] show ?thesis by fastforce
    next
      case False
      with q "2.prems" obtain v' where "read_quoted cs = Inr (v', r)"
        by (auto simp: map_sum_Inr_cons)
      with "2.IH"(2) [OF q False] show ?thesis by fastforce
    qed
  qed
qed

lemma read_value_length: "read_value s = Inr (v, r) \<Longrightarrow> length r \<le> length s"
proof (cases s)
  case Nil then show "read_value s = Inr (v, r) \<Longrightarrow> ?thesis" by (simp add: read_value_def)
next
  case (Cons c cs)
  then show "read_value s = Inr (v, r) \<Longrightarrow> ?thesis"
    using read_quoted_length [of cs v r] read_unquoted_length [of s v r]
    by (simp add: read_value_def split: if_splits)
qed

lemma opt_step_length:
  assumes "opt_step s = Some (Inr (kv, r))"
  shows "length r < length s"
proof -
  define s1 where "s1 = dropWhile is_space s"
  define r1 where "r1 = dropWhile is_space (dropWhile key_char s1)"
  define r3 where "r3 = dropWhile is_space (tl r1)"
  have st: "opt_step s =
     (if s1 = [] then None
      else if r1 = [] \<or> hd r1 \<noteq> CHR ''='' then Some (Inl (''missing \"=\" after '' @ takeWhile key_char s1))
      else if r3 = [] then Some (Inr ((takeWhile key_char s1, []), []))
      else Some (map_sum id (\<lambda>(v, r4). ((takeWhile key_char s1, v), r4)) (read_value r3)))"
    unfolding opt_step_def s1_def r1_def r3_def Let_def by (rule refl)
  have ne: "r1 \<noteq> []" using assms st by (auto split: if_splits)
  have "length r1 \<le> length s" unfolding r1_def s1_def by (meson le_trans length_dropWhile_le)
  then have l3: "length r3 < length s"
    using ne length_dropWhile_le [of is_space "tl r1"] by (cases r1) (auto simp: r3_def)
  consider "r3 = []" "r = []" | v where "read_value r3 = Inr (v, r)"
    using assms st by (cases "read_value r3") (auto split: if_splits)
  then show ?thesis
  proof cases
    case 1 with l3 show ?thesis by simp
  next
    case 2 with l3 read_value_length show ?thesis by fastforce
  qed
qed

end
