(* ===== verification/Bootstrap.thy ===== *)
theory Bootstrap
  imports PqScan Service
begin

text \<open>
  The process of \<open>src/cmd/server/main.go\<close> around the service of theory
  \<open>Service\<close>.
  \<^item> The connection string of lines 27--28 (\<open>dsn\<close>), and how the driver
    \<open>lib/pq\<close> reads it back (\<open>parse_opts\<close>, the loop of \<open>parseOpts\<close> over the
    steps of theory \<open>PqScan\<close>). \<open>config.Config\<close> is not under \<open>src/\<close>: its five
    fields are the ones \<open>main\<close> reads.
  \<^item> Startup (\<open>main_start\<close>): open, ping, and serve, or a fatal log line and exit
    code 1.
  \<^item> The running process (\<open>main_step\<close>), as one step per event:
    \<^item> a request passes the logging middleware and the top-level router
      (\<open>main_route\<close>), which adds \<open>/swagger\<close> and chi's 404 to the routes of
      \<open>/subscriptions\<close>;
    \<^item> the database clock or availability changes;
    \<^item> the listener fails;
    \<^item> an interrupt starts \<open>srv.Shutdown\<close> under its 5-second context
      (\<open>drain\<close>).

  The lemmas show:
  \<^item> what the driver receives for a well-formed configuration, and for one with
    an empty password;
  \<^item> that requests are served as by \<open>serve\<close>;
  \<^item> that the shutdown ends the process within the grace period whatever the
    jitter of \<open>net/http\<close>'s polls, with exit code 0 only when every in-flight
    request had finished by the last poll before the deadline (\<open>last_poll\<close>),
    so a request finishing between that poll and the deadline is cut off too.
\<close>

function parse_opts :: "string \<Rightarrow> string + (string \<times> string) list" where
  "parse_opts s =
     (case opt_step s of
        None \<Rightarrow> Inr []
      | Some (Inl e) \<Rightarrow> Inl e
      | Some (Inr (kv, r)) \<Rightarrow> map_sum id (\<lambda>kvs. kv # kvs) (parse_opts r))"
  by pat_completeness auto
termination
  by (relation "measure length") (auto dest: opt_step_length)


declare parse_opts.simps [simp del]

definition plain_value :: "string \<Rightarrow> bool" where
  "plain_value v \<longleftrightarrow> v \<noteq> [] \<and> list_all (\<lambda>c. \<not> is_space c \<and> c \<noteq> CHR 0x5C) v \<and> hd v \<noteq> CHR 0x27"

definition plain_key :: "string \<Rightarrow> bool" where
  "plain_key k \<longleftrightarrow> k \<noteq> [] \<and> list_all key_char k"

fun kv_text :: "(string \<times> string) list \<Rightarrow> string" where
  "kv_text [] = []"
| "kv_text ((k, v) # ps) = k @ ''='' @ v @ (if ps = [] then [] else CHR '' '' # kv_text ps)"

record config =
  DBHost :: string
  DBPort :: string
  DBUser :: string
  DBPassword :: string
  DBName :: string

text \<open>
  Lines 27--28: the connection string, each field put in with \<open>%s\<close> as it is,
  without the quoting \<open>lib/pq\<close> would need for an empty value or one with spaces.
\<close>

definition dsn :: "config \<Rightarrow> string" where
  "dsn cfg =
     ''host='' @ DBHost cfg @ '' port='' @ DBPort cfg @ '' user='' @ DBUser cfg @
     '' password='' @ DBPassword cfg @ '' dbname='' @ DBName cfg @ '' sslmode=disable''"

text \<open>All five fields are values \<open>lib/pq\<close> reads back unquoted.\<close>

definition cfg_plain :: "config \<Rightarrow> bool" where
  "cfg_plain cfg \<longleftrightarrow> plain_value (DBHost cfg) \<and> plain_value (DBPort cfg) \<and> plain_value (DBUser cfg) \<and>
     plain_value (DBPassword cfg) \<and> plain_value (DBName cfg)"

subsection \<open>The process\<close>

text \<open>
  What \<open>main\<close> writes to the log, one constructor per call of the logger: the
  fatal ones end the process with exit code 1.
\<close>

datatype log_entry =
    LogOpenFailed string
  | LogPingFailed
  | LogStarting
  | LogRequest http_method string
  | LogListenFailed
  | LogShuttingDown
  | LogForcedShutdown
  | LogExiting

datatype phase = Serving | Exited nat

record proc =
  phase :: phase
  pdb :: db
  plog :: "log_entry list"

text \<open>
  Lines 30--43. \<open>sql.Open\<close> calls the driver's \<open>OpenConnector\<close>, which parses the
  connection string, so a malformed one is the error of line 32. \<open>db.Ping\<close> (line 38)
  connects: it fails when the server is down or rejects the settings it was sent;
  \<open>accept\<close> is the server's decision on them. Then the server starts (line 69).
\<close>

definition main_start :: "((string \<times> string) list \<Rightarrow> bool) \<Rightarrow> config \<Rightarrow> db \<Rightarrow> proc" where
  "main_start accept cfg d =
     (case parse_opts (dsn cfg) of
        Inl e \<Rightarrow> \<lparr>phase = Exited 1, pdb = d, plog = [LogOpenFailed e]\<rparr>
      | Inr opts \<Rightarrow>
          if up d \<and> accept opts then \<lparr>phase = Serving, pdb = d, plog = [LogStarting]\<rparr>
          else \<lparr>phase = Exited 1, pdb = d, plog = [LogPingFailed]\<rparr>)"

text \<open>The URL path of a request, as \<open>r.URL.Path\<close> prints it in the log line.\<close>

definition path_str :: "string list \<Rightarrow> string" where
  "path_str segs = concat (map (\<lambda>s. ''/'' @ s) segs)"

definition chi_not_found :: response where
  "chi_not_found = \<lparr>status = 404, resp_body = RText ''404 page not found\<newline>''\<rparr>"

text \<open>
  Lines 45--65: the top-level router. \<open>/subscriptions\<close> and everything under it
  goes to the routes of theory \<open>Service\<close>; \<open>GET /swagger\<close> serves the file
  \<open>./openapi.yaml\<close> (\<open>files\<close> is the file system, a missing file is 404); any other
  method on \<open>/swagger\<close> is 405 and any other path 404.
\<close>

definition main_route :: "(string \<rightharpoonup> string) \<Rightarrow> uuid \<Rightarrow> http_request \<Rightarrow> db \<Rightarrow> response \<times> db" where
  "main_route files fresh r d =
     (case path r of
        [] \<Rightarrow> (chi_not_found, d)
      | seg # rest \<Rightarrow>
          if seg = ''subscriptions'' then serve fresh (r\<lparr>path := rest\<rparr>) d
          else if seg = ''swagger'' \<and> rest = [] then
            (if req_method r = GET then
               (case files ''./openapi.yaml'' of
                  Some c \<Rightarrow> \<lparr>status = 200, resp_body = RText c\<rparr>
                | None \<Rightarrow> chi_not_found)
             else \<lparr>status = 405, resp_body = REmpty\<rparr>, d)
          else (chi_not_found, d))"

text \<open>
  Line 80: the grace period of the shutdown, \<open>5*time.Second\<close>, in the clock's
  unit, milliseconds.
\<close>

definition grace_ms :: nat where
  "grace_ms = 5000"

text \<open>
  \<open>srv.Shutdown(ctx)\<close> (line 82), as \<open>net/http\<close> implements it: the listener
  is closed, then the server checks whether every connection is idle, and if not
  waits for the next poll or the context's deadline, whichever comes first. The
  \<open>k\<close>-th poll interval is \<open>pollIntervalBase\<close>, which starts at one millisecond
  and doubles up to 500, plus a random jitter below a tenth of it
  (\<open>rand.Intn\<close>), which the environment supplies as \<open>jit k\<close>. \<open>rs\<close> holds the
  time, in milliseconds after the interrupt, at which each in-flight request
  finishes; \<open>t\<close> is the time of the current check. When a poll and the deadline
  fall at the same instant Go's \<open>select\<close> may take either; the deadline is taken.
  The result is the time \<open>Shutdown\<close> returned, on the right when it returned
  \<open>nil\<close> and on the left when it returned \<open>ctx.Err()\<close>.
\<close>

definition poll_base :: "nat \<Rightarrow> nat" where
  "poll_base k = min (2 ^ k) 500"

function drain :: "(nat \<Rightarrow> nat) \<Rightarrow> nat \<Rightarrow> nat \<Rightarrow> nat list \<Rightarrow> nat + nat" where
  "drain jit k t rs =
     (if list_all (\<lambda>r. r \<le> t) rs then Inr t
      else if grace_ms \<le> t + (poll_base k + jit k) then Inl grace_ms
      else drain jit (Suc k) (t + (poll_base k + jit k)) rs)"
  by pat_completeness auto
termination
  by (relation "measure (\<lambda>(jit, k, t, rs). grace_ms - t)") (auto simp: poll_base_def diff_less_mono2)

declare drain.simps [simp del]

text \<open>The time of the last poll before the deadline, for a given jitter.\<close>

function last_poll :: "(nat \<Rightarrow> nat) \<Rightarrow> nat \<Rightarrow> nat \<Rightarrow> nat" where
  "last_poll jit k t =
     (if grace_ms \<le> t + (poll_base k + jit k) then t
      else last_poll jit (Suc k) (t + (poll_base k + jit k)))"
  by pat_completeness auto
termination
  by (relation "measure (\<lambda>(jit, k, t). grace_ms - t)") (auto simp: poll_base_def diff_less_mono2)

declare last_poll.simps [simp del]

definition longest :: "nat list \<Rightarrow> nat" where
  "longest rs = foldr max rs 0"

datatype main_event =
    MRequest uuid http_request
  | MTick nat
  | MDbUp bool
  | MListenError
  | MInterrupt "nat list" "nat \<Rightarrow> nat"

text \<open>
  One step of the running process, lines 47--85. A request is logged by the
  middleware (lines 47--52) and then routed; a failing \<open>ListenAndServe\<close> is fatal
  (line 71); the interrupt (line 77) starts the shutdown, after which \<open>main\<close>
  returns (exit 0) or the forced shutdown is fatal (line 83). An exited process
  does nothing more.
\<close>

definition main_step :: "(string \<rightharpoonup> string) \<Rightarrow> main_event \<Rightarrow> proc \<Rightarrow> response option \<times> proc" where
  "main_step files ev p =
     (case phase p of
        Exited c \<Rightarrow> (None, p)
      | Serving \<Rightarrow>
          (case ev of
             MRequest f r \<Rightarrow>
               (case main_route files f r (pdb p) of
                  (resp, d') \<Rightarrow>
                    (Some resp, p\<lparr>pdb := d', plog := plog p @ [LogRequest (req_method r) (path_str (path r))]\<rparr>))
           | MTick k \<Rightarrow> (None, p\<lparr>pdb := sys_step (Tick k) (pdb p)\<rparr>)
           | MDbUp b \<Rightarrow> (None, p\<lparr>pdb := sys_step (DbUp b) (pdb p)\<rparr>)
           | MListenError \<Rightarrow> (None, p\<lparr>phase := Exited 1, plog := plog p @ [LogListenFailed]\<rparr>)
           | MInterrupt rs jit \<Rightarrow>
               (case drain jit 0 0 rs of
                  Inr t \<Rightarrow> (None, p\<lparr>phase := Exited 0, pdb := sys_step (Tick t) (pdb p),
                                     plog := plog p @ [LogShuttingDown, LogExiting]\<rparr>)
                | Inl t \<Rightarrow> (None, p\<lparr>phase := Exited 1, pdb := sys_step (Tick t) (pdb p),
                                     plog := plog p @ [LogShuttingDown, LogForcedShutdown]\<rparr>))))"

text \<open>A configuration for the examples.\<close>

definition ex_cfg :: config where
  "ex_cfg = \<lparr>DBHost = ''localhost'', DBPort = ''5432'', DBUser = ''postgres'', DBPassword = ''secret'',
             DBName = ''subscriptions''\<rparr>"

subsection \<open>The connection string\<close>

lemma read_unquoted_plain:
  assumes "list_all (\<lambda>c. \<not> is_space c \<and> c \<noteq> CHR 0x5C) v" and "rest = [] \<or> is_space (hd rest)"
  shows "read_unquoted (v @ rest) = Inr (v, rest)"
  using assms
proof (induction v)
  case Nil then show ?case by (cases rest) auto
next
  case (Cons c v) then show ?case by simp
qed

lemma read_value_plain:
  "plain_value v \<Longrightarrow> rest = [] \<or> is_space (hd rest) \<Longrightarrow> read_value (v @ rest) = Inr (v, rest)"
  by (cases v) (auto simp: plain_value_def read_value_def read_unquoted_plain simp del: read_unquoted.simps
      intro: read_unquoted_plain [of "_ # _", simplified])

lemma plain_not_space: "plain_value v \<Longrightarrow> dropWhile is_space (v @ rest) = v @ rest"
  by (cases v) (auto simp: plain_value_def)

lemma key_not_space: "plain_key k \<Longrightarrow> dropWhile is_space (k @ rest) = k @ rest"
  by (cases k) (auto simp: plain_key_def key_char_def)

lemma eq_not_key_char [simp]: "\<not> key_char (CHR ''='')" "\<not> is_space (CHR ''='')"
  by (simp_all add: key_char_def is_space_def)

lemma opt_step_kv_sp:
  assumes "plain_key k" and "plain_value v" and "rest = [] \<or> is_space (hd rest)"
    and "list_all is_space sp"
  shows "opt_step (k @ ''='' @ sp @ v @ rest) = Some (Inr ((k, v), rest))"
proof -
  have k: "list_all key_char k" "k \<noteq> []" using assms(1) by (simp_all add: plain_key_def)
  have tw: "takeWhile key_char (k @ CHR ''='' # sp @ v @ rest) = k"
    using k(1) by (simp add: takeWhile_append2 list_all_iff)
  have dw: "dropWhile key_char (k @ CHR ''='' # sp @ v @ rest) = CHR ''='' # sp @ v @ rest"
    using k(1) by (simp add: dropWhile_append2 list_all_iff)
  have sp: "dropWhile is_space (sp @ v @ rest) = v @ rest"
    using assms(4) plain_not_space [OF assms(2)] by (simp add: dropWhile_append2 list_all_iff)
  have "v \<noteq> []" using assms(2) by (simp add: plain_value_def)
  then show ?thesis
    using assms k tw dw sp key_not_space [OF assms(1), of "CHR ''='' # sp @ v @ rest"]
      read_value_plain [OF assms(2,3)]
    by (simp add: opt_step_def Let_def)
qed

lemma opt_step_kv:
  "plain_key k \<Longrightarrow> plain_value v \<Longrightarrow> rest = [] \<or> is_space (hd rest) \<Longrightarrow>
   opt_step (k @ ''='' @ v @ rest) = Some (Inr ((k, v), rest))"
  using opt_step_kv_sp [of k v rest "[]"] by simp

lemma parse_opts_step:
  "opt_step s = Some (Inr (kv, r)) \<Longrightarrow> parse_opts s = map_sum id (\<lambda>kvs. kv # kvs) (parse_opts r)"
  by (simp add: parse_opts.simps [of s])

lemma parse_opts_Nil [simp]: "parse_opts [] = Inr []"
  by (simp add: parse_opts.simps [of "[]"] opt_step_def)

lemma parse_opts_space: "is_space c \<Longrightarrow> parse_opts (c # s) = parse_opts s"
  by (simp add: parse_opts.simps [of "c # s"] parse_opts.simps [of s] opt_step_def)

lemma space_is_space [simp]: "is_space (CHR '' '')"
  by (simp add: is_space_def)

lemma parse_opts_kv_text_app:
  "list_all (\<lambda>(k, v). plain_key k \<and> plain_value v) ps \<Longrightarrow> rest = [] \<or> is_space (hd rest) \<Longrightarrow>
   parse_opts (kv_text ps @ rest) = map_sum id (\<lambda>kvs. ps @ kvs) (parse_opts rest)"
proof (induction ps rule: kv_text.induct)
  case 1 then show ?case by (cases "parse_opts rest") simp_all
next
  case (2 k v ps)
  from "2.prems" have kv: "plain_key k" "plain_value v" by simp_all
  show ?case
  proof (cases "ps = []")
    case True
    then show ?thesis using opt_step_kv [OF kv "2.prems"(2)]
      by (cases "parse_opts rest") (simp_all add: parse_opts_step)
  next
    case False
    have t: "kv_text ((k, v) # ps) @ rest = k @ ''='' @ v @ CHR '' '' # kv_text ps @ rest"
      using False by simp
    have "opt_step (k @ ''='' @ v @ CHR '' '' # kv_text ps @ rest) =
        Some (Inr ((k, v), CHR '' '' # kv_text ps @ rest))"
      by (rule opt_step_kv [OF kv]) simp
    then have "parse_opts (kv_text ((k, v) # ps) @ rest) =
        map_sum id (\<lambda>kvs. (k, v) # kvs) (parse_opts (kv_text ps @ rest))"
      unfolding t by (simp add: parse_opts_step parse_opts_space)
    with "2.IH" [OF False] "2.prems" show ?thesis
      by (cases "parse_opts rest") simp_all
  qed
qed

lemma parse_opts_kv_text:
  "list_all (\<lambda>(k, v). plain_key k \<and> plain_value v) ps \<Longrightarrow> parse_opts (kv_text ps) = Inr ps"
proof (induction ps rule: kv_text.induct)
  case 1 then show ?case by simp
next
  case (2 k v ps)
  from "2.prems" have kv: "plain_key k" "plain_value v" by simp_all
  show ?case
  proof (cases "ps = []")
    case True
    then show ?thesis using opt_step_kv [OF kv, of "[]"] by (simp add: parse_opts_step)
  next
    case False
    have t: "kv_text ((k, v) # ps) = k @ ''='' @ v @ CHR '' '' # kv_text ps" using False by simp
    have "opt_step (k @ ''='' @ v @ CHR '' '' # kv_text ps) = Some (Inr ((k, v), CHR '' '' # kv_text ps))"
      by (rule opt_step_kv [OF kv]) simp
    then have "parse_opts (kv_text ((k, v) # ps)) = map_sum id (\<lambda>kvs. (k, v) # kvs) (parse_opts (kv_text ps))"
      unfolding t by (simp add: parse_opts_step parse_opts_space)
    with "2.IH" [OF False] "2.prems" show ?thesis by simp
  qed
qed

lemma dsn_kv_text:
  "dsn cfg = kv_text [(''host'', DBHost cfg), (''port'', DBPort cfg), (''user'', DBUser cfg),
     (''password'', DBPassword cfg), (''dbname'', DBName cfg), (''sslmode'', ''disable'')]"
  by (simp add: dsn_def)

lemma dsn_keys_plain:
  "list_all (\<lambda>k. plain_key k) [''host'', ''port'', ''user'', ''password'', ''dbname'', ''sslmode'']"
  by (simp add: plain_key_def key_char_def is_space_def)

lemma plain_disable: "plain_value ''disable''"
  by (simp add: plain_value_def is_space_def)

lemma dsn_parse:
  "cfg_plain cfg \<Longrightarrow> parse_opts (dsn cfg) = Inr [(''host'', DBHost cfg), (''port'', DBPort cfg),
     (''user'', DBUser cfg), (''password'', DBPassword cfg), (''dbname'', DBName cfg), (''sslmode'', ''disable'')]"
  unfolding dsn_kv_text
  by (rule parse_opts_kv_text) (use dsn_keys_plain plain_disable in \<open>simp add: cfg_plain_def\<close>)

lemma main_start_serving:
  assumes "cfg_plain cfg" and "up d"
    and "accept [(''host'', DBHost cfg), (''port'', DBPort cfg), (''user'', DBUser cfg),
                 (''password'', DBPassword cfg), (''dbname'', DBName cfg), (''sslmode'', ''disable'')]"
  shows "main_start accept cfg d = \<lparr>phase = Serving, pdb = d, plog = [LogStarting]\<rparr>"
  using assms by (simp add: main_start_def dsn_parse)

text \<open>
  C28 (roundtrip): a configuration whose five fields are plain values (non-empty,
  no whitespace or backslash, no leading quote) reaches the driver intact: the
  connection string \<open>main\<close> builds parses back, in \<open>lib/pq\<close>, to exactly those
  settings and \<open>sslmode=disable\<close>.
\<close>

theorem dsn_roundtrip:
  assumes "plain_value (DBHost cfg)" "plain_value (DBPort cfg)" "plain_value (DBUser cfg)"
    "plain_value (DBPassword cfg)" "plain_value (DBName cfg)"
  shows "parse_opts (dsn cfg) =
           Inr [(''host'', DBHost cfg), (''port'', DBPort cfg), (''user'', DBUser cfg),
                (''password'', DBPassword cfg), (''dbname'', DBName cfg), (''sslmode'', ''disable'')]"
  unfolding dsn_kv_text
  by (rule parse_opts_kv_text) (use assms dsn_keys_plain plain_disable in simp)

theorem dsn_roundtrip_witness:
  "plain_value (DBHost ex_cfg) \<and> plain_value (DBPort ex_cfg) \<and> plain_value (DBUser ex_cfg) \<and>
   plain_value (DBPassword ex_cfg) \<and> plain_value (DBName ex_cfg) \<and>
   parse_opts (dsn ex_cfg) =
     Inr [(''host'', ''localhost''), (''port'', ''5432''), (''user'', ''postgres''),
          (''password'', ''secret''), (''dbname'', ''subscriptions''), (''sslmode'', ''disable'')]"
proof -
  have p: "plain_value (DBHost ex_cfg)" "plain_value (DBPort ex_cfg)" "plain_value (DBUser ex_cfg)"
    "plain_value (DBPassword ex_cfg)" "plain_value (DBName ex_cfg)"
    by (simp_all add: ex_cfg_def plain_value_def is_space_def)
  show ?thesis using p dsn_roundtrip [OF p] by (simp add: ex_cfg_def)
qed

text \<open>
  C29 (functional): an empty password breaks the connection string. \<open>lib/pq\<close>
  skips the whitespace after \<open>password=\<close> and takes the next setting as the
  password: the driver is sent the password \<open>dbname=...\<close> and no database name.
\<close>

theorem dsn_empty_password:
  assumes "plain_value (DBHost cfg)" "plain_value (DBPort cfg)" "plain_value (DBUser cfg)"
    "plain_value (DBName cfg)" and "DBPassword cfg = []"
  shows "parse_opts (dsn cfg) =
           Inr [(''host'', DBHost cfg), (''port'', DBPort cfg), (''user'', DBUser cfg),
                (''password'', ''dbname='' @ DBName cfg), (''sslmode'', ''disable'')]"
proof -
  have pv: "plain_value (''dbname='' @ DBName cfg)" using assms(4) by (simp add: plain_value_def is_space_def)
  let ?ps = "[(''host'', DBHost cfg), (''port'', DBPort cfg), (''user'', DBUser cfg)]"
  let ?T = "CHR '' '' # kv_text [(''sslmode'', ''disable'')]"
  let ?Q = "''password'' @ ''='' @ '' '' @ (''dbname='' @ DBName cfg) @ ?T"
  have tx: "dsn cfg = kv_text ?ps @ CHR '' '' # ?Q" using assms(5) by (simp add: dsn_def)
  have st: "opt_step ?Q = Some (Inr ((''password'', ''dbname='' @ DBName cfg), ?T))"
    by (rule opt_step_kv_sp [OF _ pv]) (simp_all add: plain_key_def key_char_def is_space_def)
  have 1: "parse_opts (kv_text ?ps @ CHR '' '' # ?Q) = map_sum id (\<lambda>kvs. ?ps @ kvs) (parse_opts (CHR '' '' # ?Q))"
    by (rule parse_opts_kv_text_app) (use assms dsn_keys_plain in simp_all)
  have 2: "parse_opts (CHR '' '' # ?Q) = parse_opts ?Q" by (rule parse_opts_space) simp
  have 3: "parse_opts ?Q = map_sum id (\<lambda>kvs. (''password'', ''dbname='' @ DBName cfg) # kvs) (parse_opts ?T)"
    by (rule parse_opts_step [OF st])
  have 4: "parse_opts ?T = Inr [(''sslmode'', ''disable'')]"
    using parse_opts_kv_text [of "[(''sslmode'', ''disable'')]"] plain_disable dsn_keys_plain
    by (simp only: parse_opts_space space_is_space) simp
  show ?thesis by (simp only: tx 1 2 3 4) simp
qed

theorem dsn_empty_password_witness:
  "plain_value (DBHost ex_cfg) \<and> plain_value (DBPort ex_cfg) \<and> plain_value (DBUser ex_cfg) \<and>
   plain_value (DBName ex_cfg) \<and> DBPassword (ex_cfg\<lparr>DBPassword := []\<rparr>) = [] \<and>
   parse_opts (dsn (ex_cfg\<lparr>DBPassword := []\<rparr>)) =
     Inr [(''host'', ''localhost''), (''port'', ''5432''), (''user'', ''postgres''),
          (''password'', ''dbname=subscriptions''), (''sslmode'', ''disable'')]"
proof -
  have p: "plain_value (DBHost (ex_cfg\<lparr>DBPassword := []\<rparr>))" "plain_value (DBPort (ex_cfg\<lparr>DBPassword := []\<rparr>))"
    "plain_value (DBUser (ex_cfg\<lparr>DBPassword := []\<rparr>))" "plain_value (DBName (ex_cfg\<lparr>DBPassword := []\<rparr>))"
    by (simp_all add: ex_cfg_def plain_value_def is_space_def)
  have e: "DBPassword (ex_cfg\<lparr>DBPassword := []\<rparr>) = []" by simp
  show ?thesis using p e dsn_empty_password [OF p e] by (simp add: ex_cfg_def)
qed


subsection \<open>The process: requests and shutdown\<close>

lemma longest_Cons [simp]: "longest (r # rs) = max r (longest rs)"
  by (simp add: longest_def)

lemma longest_Nil [simp]: "longest [] = 0"
  by (simp add: longest_def)

lemma all_done_longest: "list_all (\<lambda>r. r \<le> t) rs \<longleftrightarrow> longest rs \<le> t"
  by (induction rs) auto

text \<open>
  \<open>Shutdown\<close> returns \<open>nil\<close> only at a check where every request is done, and
  that check is the first one or one before the deadline; otherwise it returns at
  the deadline.
\<close>

lemma drain_Inr: "drain jit k t rs = Inr t' \<Longrightarrow> longest rs \<le> t' \<and> (t' = t \<or> t' < grace_ms)"
proof (induction jit k t rs rule: drain.induct)
  case (1 jit k t rs)
  show ?case
  proof (cases "list_all (\<lambda>r. r \<le> t) rs \<or> grace_ms \<le> t + (poll_base k + jit k)")
    case True
    with "1.prems" show ?thesis by (subst (asm) drain.simps) (auto simp: all_done_longest split: if_splits)
  next
    case False
    with "1.prems" have "drain jit (Suc k) (t + (poll_base k + jit k)) rs = Inr t'"
      by (subst (asm) drain.simps) simp
    with False "1.IH" show ?thesis by auto
  qed
qed

lemma drain_Inl: "drain jit k t rs = Inl t' \<Longrightarrow> t' = grace_ms"
proof (induction jit k t rs rule: drain.induct)
  case (1 jit k t rs)
  from "1.prems" show ?case
    by (subst (asm) drain.simps) (auto split: if_splits dest: "1.IH")
qed

lemma exited_stays: "phase p = Exited c \<Longrightarrow> main_step files ev p = (None, p)"
  by (simp add: main_step_def)

text \<open>
  \<open>Shutdown\<close> returns \<open>nil\<close> exactly when every request is done by the last poll
  before the deadline, and that poll is before the deadline.
\<close>

lemma drain_Inr_iff: "(\<exists>t'. drain jit k t rs = Inr t') \<longleftrightarrow> longest rs \<le> last_poll jit k t"
proof (induction jit k t rs rule: drain.induct)
  case (1 jit k t rs)
  have le: "t \<le> last_poll jit k t"
  proof (induction jit k t rule: last_poll.induct)
    case (1 jit k t) then show ?case by (subst last_poll.simps) (auto intro: order_trans [OF le_add1])
  qed
  show ?case
  proof (cases "list_all (\<lambda>r. r \<le> t) rs")
    case True
    then show ?thesis using le by (subst drain.simps) (simp add: all_done_longest)
  next
    case False
    then show ?thesis using "1.IH" [OF False]
      by (subst drain.simps, subst last_poll.simps) (simp add: all_done_longest)
  qed
qed

lemma last_poll_before: "t < grace_ms \<Longrightarrow> last_poll jit k t < grace_ms"
proof (induction jit k t rule: last_poll.induct)
  case (1 jit k t) then show ?case by (subst last_poll.simps) simp
qed

text \<open>
  C30 (termination): whatever the jitter of the poll intervals, an interrupt ends
  the running process with exit code 0 or 1, at most 5 seconds after it arrived.
  The exit code is 0 exactly when every in-flight request has finished by the
  last poll before the deadline, which is earlier than the deadline; then every
  request had finished when the process exited. An exited process does nothing
  more.
\<close>

theorem shutdown_exits:
  assumes "phase p = Serving"
  shows "(phase (snd (main_step files (MInterrupt rs jit) p)) = Exited 0 \<or>
          phase (snd (main_step files (MInterrupt rs jit) p)) = Exited 1) \<and>
         clock (pdb p) \<le> clock (pdb (snd (main_step files (MInterrupt rs jit) p))) \<and>
         clock (pdb (snd (main_step files (MInterrupt rs jit) p))) \<le> clock (pdb p) + grace_ms \<and>
         (phase (snd (main_step files (MInterrupt rs jit) p)) = Exited 0 \<longleftrightarrow> longest rs \<le> last_poll jit 0 0) \<and>
         last_poll jit 0 0 < grace_ms \<and>
         (phase (snd (main_step files (MInterrupt rs jit) p)) = Exited 0 \<longrightarrow>
            clock (pdb p) + longest rs \<le> clock (pdb (snd (main_step files (MInterrupt rs jit) p)))) \<and>
         (\<forall>ev. main_step files ev (snd (main_step files (MInterrupt rs jit) p)) =
                 (None, snd (main_step files (MInterrupt rs jit) p)))"
proof -
  define q where "q = snd (main_step files (MInterrupt rs jit) p)"
  have lp: "last_poll jit 0 0 < grace_ms" by (rule last_poll_before) (simp add: grace_ms_def)
  have "(phase q = Exited 0 \<or> phase q = Exited 1) \<and> clock (pdb p) \<le> clock (pdb q) \<and>
        clock (pdb q) \<le> clock (pdb p) + grace_ms \<and>
        (phase q = Exited 0 \<longleftrightarrow> longest rs \<le> last_poll jit 0 0) \<and>
        (phase q = Exited 0 \<longrightarrow> clock (pdb p) + longest rs \<le> clock (pdb q))"
  proof (cases "drain jit 0 0 rs")
    case (Inr t)
    with drain_Inr [OF Inr] drain_Inr_iff [of jit 0 0 rs] show ?thesis
      using assms by (auto simp: q_def main_step_def grace_ms_def)
  next
    case (Inl t)
    with drain_Inl [OF Inl] drain_Inr_iff [of jit 0 0 rs] show ?thesis
      using assms by (auto simp: q_def main_step_def)
  qed
  moreover have "\<forall>ev. main_step files ev q = (None, q)" using calculation exited_stays by blast
  ultimately show ?thesis using lp unfolding q_def by blast
qed

text \<open>
  With \<open>net/http\<close>'s schedule and no jitter the polls fall at 0, 1, 3, 7, \<dots>, 511,
  1011, \<dots>, 4511 ms: a request that finishes at 4800 ms, inside the grace
  period, is still cut off and the process exits 1.
\<close>

theorem shutdown_exits_witness:
  "phase \<lparr>phase = Serving, pdb = ex_db, plog = []\<rparr> = Serving \<and> last_poll (\<lambda>_. 0) 0 0 = 4511 \<and>
   phase (snd (main_step Map.empty (MInterrupt [4800] (\<lambda>_. 0)) \<lparr>phase = Serving, pdb = ex_db, plog = []\<rparr>)) =
     Exited 1"
proof -
  have s: "phase \<lparr>phase = Serving, pdb = ex_db, plog = []\<rparr> = Serving" by simp
  have l: "last_poll (\<lambda>_. 0) 0 0 = 4511" by (simp add: last_poll.simps poll_base_def grace_ms_def)
  show ?thesis
    using s l shutdown_exits [OF s, of Map.empty "[4800]" "\<lambda>_. 0"] by auto
qed

end
