(* ===== verification/Spec2Isabelle.thy ===== *)
theory Spec2Isabelle
  imports Service MockStore Bootstrap
begin

text \<open>
  \<^bold>\<open>A verification library for the subscription service.\<close>

  The program (Go, under \<open>src/\<close>) is a small HTTP service over PostgreSQL. The
  chi router of \<open>cmd/server/main.go\<close> sends each request on \<open>/subscriptions\<close>
  to one method of \<open>handler.Handler\<close> (\<open>internal/handler/handler.go\<close>). The
  handler parses the path id, the query and the JSON body, and calls one method
  of the interface \<open>store.Store\<close>. \<open>PostgresStore\<close> (\<open>internal/store/pg.go\<close>)
  implements that interface with one SQL statement per call, and builds the text
  of the two statements that filter (List, Summary) at run time. The test file
  \<open>handler_test.go\<close> runs the handlers against a second implementation, an
  in-memory \<open>mockStore\<close>. Around all this, \<open>main\<close> builds the connection
  string, opens and pings the database, logs every request, serves \<open>/swagger\<close>,
  and shuts down on an interrupt.

  \<^bold>\<open>Theories and what they model.\<close>
  \<^item> \<open>Prelude\<close>: Go's \<open>int\<close> range (int64), decimal printing as \<open>fmt.Sprintf("%d")\<close>
    does it and reading it back, and the shared lemma collections.
  \<^item> \<open>Model\<close>: \<open>model.Subscription\<close> as a record. \<open>uuid.UUID\<close> is a byte list,
    \<open>valid_uuid\<close> when it has 16 bytes; \<open>time.Time\<close> is a natural timestamp.
  \<^item> \<open>Store\<close>: the interface \<open>store.Store\<close> as a record of six functions over a
    backend state \<open>'s\<close>, the errors the backends return, and the contract of the
    spec (section 4.1) on an abstract table \<open>uuid \<rightharpoonup> subscription\<close>:
    \<open>spec_create\<close>, \<open>spec_update\<close>, \<open>spec_delete\<close>, \<open>spec_summary\<close> and \<open>spec_page\<close>.
  \<^item> \<open>Pg\<close>: \<open>PostgresStore\<close>. Its state \<open>db\<close> is the table's rows in insertion
    order, the clock \<open>now()\<close> reads, and whether the server can be reached.
    \<open>PostgresStore_Create\<close>, \<open>_Get\<close>, \<open>_Update\<close>, \<open>_Delete\<close>, \<open>_List\<close> and
    \<open>_Summary\<close> are the six methods. For List and Summary the query text is
    built character by character as the code builds it (\<open>add_filter\<close>,
    \<open>with_filters\<close>, \<open>where_sql\<close>, \<open>list_query\<close>, \<open>summary_query\<close>, and \<open>sqlx.Rebind\<close>
    as \<open>rebind_from\<close>). The database side parses that text back
    (\<open>parse_list_query\<close>, \<open>parse_summary_query\<close>), binds the \<open>$n\<close> parameters
    (\<open>params_ok\<close>) and evaluates the statement (\<open>exec_list\<close>, \<open>exec_summary\<close>). A
    negative LIMIT or OFFSET is an error, as is a sum that \<open>Scan\<close> cannot fit in
    a Go \<open>int\<close>. \<open>scan_rows\<close> is the \<open>append\<close> loop, which leaves the nil slice when
    there are no rows. The invariant \<open>db_inv\<close> holds on every state the service
    reaches: ids are distinct, rows are ordered by \<open>created_at\<close>, and no stamp is
    after the clock. The abstraction \<open>abs_table\<close> maps the rows to the contract's
    table.
  \<^item> \<open>GoLib\<close>: the library functions the handlers call, as the libraries
    implement them:
    \<^item> \<open>url.Values.Get\<close> (\<open>query_get\<close>);
    \<^item> \<open>strconv.Atoi\<close> with its fast path for 1 to 18 bytes and its fallback
      \<open>ParseInt\<close>, which clamps to int64 (\<open>go_Atoi\<close>);
    \<^item> \<open>uuid.Parse\<close> in its four accepted forms, and \<open>UUID.String\<close>;
    \<^item> the JSON values \<open>encoding/json\<close> writes (\<open>json_sub\<close>, \<open>json_slice\<close>).
  \<^item> \<open>Handler\<close>: the six handlers over any \<open>'s store\<close>. A request is its route id,
    the decoded body or the decoder's error, and the query; a response is the
    status and the body.
  \<^item> \<open>Service\<close>: the routes of \<open>main\<close>, with chi's rule that a static segment
    beats \<open>{id}\<close>, and the rule of the mounted sub-router that
    \<open>/subscriptions/\<close> is its \<open>/\<close> as \<open>/subscriptions\<close> is (\<open>route\<close>). \<open>serve\<close> joins router, handlers and
    \<open>PostgresStore\<close>. The running service is a state machine \<open>sys_step\<close> over
    \<open>db\<close>, whose events are a request served with the id \<open>uuid.New()\<close> returned,
    the clock moving on, and the database going down or up. \<open>reachable\<close> is the
    inductive set of states some run reaches from an empty table; \<open>run\<close> folds a
    list of events.
  \<^item> \<open>MockStore\<close>: \<open>mockStore\<close> of the tests, as an association list, and the
    three tests, each as a lemma for every state.
  \<^item> \<open>PqScan\<close> and \<open>Bootstrap\<close>: the rest of \<open>main\<close>.
    \<^item> The connection string (\<open>dsn\<close>), and the way the driver \<open>lib/pq\<close> reads
      it back (\<open>parse_opts\<close>, over the scanner step \<open>opt_step\<close>).
    \<^item> Startup (\<open>main_start\<close>).
    \<^item> The running process as one step per event (\<open>main_step\<close>): requests
      through the logging middleware and the top-level router (\<open>main_route\<close>),
      a failing listener, and the interrupt with its bounded shutdown
      (\<open>drain\<close>). The process state \<open>proc\<close> is the phase (serving, or exited
      with a code), the database, and the log.
  \<^item> This theory: end-to-end properties through \<open>serve\<close>, which span the router,
    the handlers, the Go library and the backend.

  \<^bold>\<open>What is proved.\<close>
  \<^item> Refinement. Each method of \<open>PostgresStore\<close> implements its contract operation
    on \<open>abs_table\<close> (C1 to C6).
  \<^item> The invariant. \<open>db_inv\<close> holds on every reachable state, by rule induction
    (C7).
  \<^item> Query building. The text List and Summary send parses back to the filters,
    limit and offset (C8, C9). Every placeholder refers to the argument that
    carries its column's value (C10).
  \<^item> Handlers. The default limit is 10 (C11); a malformed \<open>user_id\<close> is ignored
    (C12).
  \<^item> End to end.
    \<^item> Create then get, delete then get, and update then get (C13, C14, C22).
    \<^item> An empty summary gives total 0 (C15), and a record with no end date is
      counted whatever \<open>period_to\<close> is (C26).
    \<^item> The default page holds \<open>min 10\<close> of the matching records left after the
      offset (C21).
    \<^item> A malformed id answers 400 (C25).
    \<^item> Two concurrent creates with distinct ids commute on the table, and with the
      same id the second answers 500 and changes nothing (C27).
  \<^item> Where the code departs from the spec, proved as it is:
    \<^item> a GET during an outage answers 404 (C16);
    \<^item> Update of a missing id answers 200 (C17);
    \<^item> an empty List answers JSON \<open>null\<close> (C18);
    \<^item> a negative limit or offset answers 500 (C19);
    \<^item> periods are compared as text, so the month decides before the year (C20).
  \<^item> The tests of \<open>handler_test.go\<close> hold for every state, not just the empty
    one (C23, C24, and the lemma \<open>mock_test_summary\<close>).
  \<^item> The process.
    \<^item> A well-formed configuration reaches the driver intact (C28).
    \<^item> An empty password does not: the driver takes the next setting as the
      password, and gets no database name (C29).
    \<^item> An interrupt ends the process at most 5 seconds later, whatever the
      jitter of the shutdown's polls, with exit code 0 exactly when every
      in-flight request has finished by the last poll before the deadline
      (\<open>last_poll\<close>) (C30). Without jitter that poll is at 4511 ms, so a request
      that finishes at 4800 ms, inside the grace period, still gives exit code 1
      (the witness of C30).

  \<^bold>\<open>Bounds and fuel.\<close> Every loop of the code is structural: the clause loop, the
  rows loop, and the digit loops of \<open>strconv\<close>. No fuel is needed. The parser of
  the clause list, \<open>read_ands\<close>, is a \<open>function\<close> proved terminating by the length
  of the text; so is \<open>parse_opts\<close>, the loop over the connection string, by
  the lemma that each scanner step consumes input. The shutdown loop is \<open>drain\<close>,
  the polling loop of \<open>net/http\<close>'s \<open>Shutdown\<close>: poll \<open>k\<close> waits
  \<open>poll_base k\<close> ms (1, 2, 4, \<dots>, 256, then 500) plus a jitter the environment
  chooses, and the loop stops at the code's 5-second deadline. It terminates by
  the time left to the deadline, since every interval is at least 1 ms.
  Integers that Go keeps in \<open>int\<close> are HOL \<open>int\<close>s with the int64 check
  written out where the code or library makes it: \<open>Scan\<close> into \<open>int\<close>, and the
  clamping of \<open>ParseInt\<close>.

  \<^bold>\<open>Not modelled.\<close>
  \<^item> \<open>godotenv.Load\<close> and \<open>config.Load\<close>. The package \<open>internal/config\<close> is not
    under \<open>src/\<close>, so a configuration is given as its five fields. The logger
    formatting is not modelled either: a log line is the constructor of the
    call that writes it.
  \<^item> \<open>http.Server\<close> internals beyond the shutdown's polling: the listener and
    connection handling. An in-flight request is the time it finishes.
  \<^item> The database server's authentication, which is a parameter \<open>accept\<close>
    of the startup.
  \<^item> The struct \<open>handler.Handler\<close> and \<open>NewHandler\<close> (handler.go lines 15--22),
    and \<open>PostgresStore\<close>'s logger. A handler is the store record it is given,
    passed to each handler function, and the logger only writes logs. The
    imports of every file are not modelled either.
  \<^item> JSON decoding itself. A body is its decoded record or the decoder's error
    message.
  \<^item> Concurrency. The service issues single statements, so each request is one
    atomic step of \<open>sys_step\<close>; interleavings inside PostgreSQL are not modelled.
  \<^item> The whitespace of the SQL literals, which is normalised to single spaces.
  \<^item> PostgreSQL beyond the statements the code sends.
\<close>

subsection \<open>Requests and data for the end-to-end properties\<close>

definition period_query :: "string \<Rightarrow> string \<Rightarrow> (string \<times> string) list" where
  "period_query pf pt = [(''period_from'', pf), (''period_to'', pt)]"

text \<open>A record that starts in December 2024.\<close>

definition dec2024_row :: subscription where
  "dec2024_row = \<lparr>ID = replicate 16 1, ServiceName = ''Plan A'', Price = 400, UserID = replicate 16 7,
                  StartDate = ''12-2024'', EndDate = None, CreatedAt = 0\<rparr>"

subsection \<open>Helpers\<close>

lemma period_query_get [simp]:
  "query_get (period_query pf pt) ''period_from'' = pf"
  "query_get (period_query pf pt) ''period_to'' = pt"
  "query_get (period_query pf pt) ''user_id'' = []"
  "query_get (period_query pf pt) ''service_name'' = []"
  by (simp_all add: period_query_def query_get_def)

lemma go_Atoi_Nil [simp]: "go_Atoi [] = (0, Some ErrSyntax)"
  by code_simp


lemma map_of_swap_last:
  "a \<noteq> b \<Longrightarrow> map_of (xs @ [(a, x), (b, y)]) = map_of (xs @ [(b, y), (a, x)])"
  by (auto simp: map_of_append fun_eq_iff map_add_def split: option.splits)

lemma find_map_update:
  assumes "\<And>r. ID (g r) = ID r"
  shows "find (\<lambda>r. ID r = i) (map (\<lambda>r. if ID r = i then g r else r) xs) = map_option g (find (\<lambda>r. ID r = i) xs)"
  using assms by (induction xs) auto

subsection \<open>End-to-end properties: router, handlers and PostgreSQL backend\<close>

text \<open>
  C13 (functional): spec section 8, create then get: on a live database, \<open>POST\<close> answers
  201 and \<open>GET\<close> with the printed fresh id answers 200 with the stored record: the
  body's fields, the fresh id, and \<open>created_at\<close> from the database clock. The 201
  body itself echoes the request's \<open>created_at\<close>, not the stored one.
\<close>

theorem create_then_get:
  assumes "up d" and "valid_uuid fresh" and "fresh \<notin> set (map ID (rows d))"
  shows "fst (serve fresh (http_req POST [] (Inr sub) []) d) =
           json_ok 201 (json_sub (sub\<lparr>ID := fresh\<rparr>)) \<and>
         fst (serve f (http_req GET [uuid_string fresh] (Inl []) [])
                (snd (serve fresh (http_req POST [] (Inr sub) []) d))) =
           json_ok 200 (json_sub (sub\<lparr>ID := fresh, CreatedAt := clock d\<rparr>))"
proof -
  have nf: "find (\<lambda>r. ID r = fresh) (rows d) = None"
    using assms(3) by (force simp: find_None_iff)
  show ?thesis
    using assms nf
    by (simp add: serve_http_req uuid_string_route Handler_Create_def Handler_Get_def pg_store_def
        PostgresStore_Create_def PostgresStore_Get_def uuid_parse_string find_snoc Let_def)
qed


theorem create_then_get_witness:
  "up ex_db \<and> valid_uuid (replicate 16 5) \<and> replicate 16 5 \<notin> set (map ID (rows ex_db)) \<and>
   fst (serve (replicate 16 5) (http_req POST [] (Inr ex_row1) []) ex_db) =
     json_ok 201 (json_sub (ex_row1\<lparr>ID := replicate 16 5\<rparr>)) \<and>
   fst (serve (replicate 16 6) (http_req GET [uuid_string (replicate 16 5)] (Inl []) [])
          (snd (serve (replicate 16 5) (http_req POST [] (Inr ex_row1) []) ex_db))) =
     json_ok 200 (json_sub (ex_row1\<lparr>ID := replicate 16 5, CreatedAt := clock ex_db\<rparr>))"
proof -
  have u: "up ex_db" and v: "valid_uuid (replicate 16 (5::byte))"
    and n: "replicate 16 5 \<notin> set (map ID (rows ex_db))"
    by (simp_all add: ex_db_def ex_row1_def ex_row2_def valid_uuid_def numeral_eq_Suc)
  show ?thesis using u v n create_then_get [OF u v n, of ex_row1 "replicate 16 6"] by simp
qed

text \<open>
  C14 (functional): spec section 8, delete then get: \<open>DELETE\<close> answers 204 whether
  or not the id was there (idempotent), and a following \<open>GET\<close> answers 404.
\<close>

theorem delete_then_get:
  assumes "up d" and "valid_uuid i"
  shows "fst (serve f (http_req DELETE [uuid_string i] (Inl []) []) d) = \<lparr>status = 204, resp_body = REmpty\<rparr> \<and>
         fst (serve f' (http_req GET [uuid_string i] (Inl []) [])
                (snd (serve f (http_req DELETE [uuid_string i] (Inl []) []) d))) =
           http_error 404 (error_text ErrNoRows)"
proof -
  have nf: "find (\<lambda>r. ID r = i) (filter (\<lambda>r. ID r \<noteq> i) (rows d)) = None"
    by (simp add: find_None_iff)
  show ?thesis
    using assms nf
    by (simp add: serve_http_req uuid_string_route Handler_Delete_def Handler_Get_def pg_store_def
        PostgresStore_Delete_def PostgresStore_Get_def uuid_parse_string)
qed

theorem delete_then_get_witness:
  "up ex_db \<and> valid_uuid (replicate 16 1) \<and>
   fst (serve [] (http_req DELETE [uuid_string (replicate 16 1)] (Inl []) []) ex_db) =
     \<lparr>status = 204, resp_body = REmpty\<rparr> \<and>
   fst (serve [] (http_req GET [uuid_string (replicate 16 1)] (Inl []) [])
          (snd (serve [] (http_req DELETE [uuid_string (replicate 16 1)] (Inl []) []) ex_db))) =
     http_error 404 (error_text ErrNoRows)"
proof -
  have u: "up ex_db" and v: "valid_uuid (replicate 16 (1::byte))"
    by (simp_all add: ex_db_def valid_uuid_def)
  show ?thesis using u v delete_then_get [OF u v, of "[]" "[]"] by simp
qed

text \<open>
  C22 (functional): spec section 3, Update is a full replace that keeps \<open>id\<close> and
  \<open>created_at\<close>: after \<open>PUT\<close> on an existing id, \<open>GET\<close> answers 200 with every
  field of the new body, the path id, and the stored \<open>created_at\<close>. The \<open>PUT\<close>
  answer itself echoes the body with the path id.
\<close>

theorem update_then_get:
  assumes "up d" and "valid_uuid i" and "find (\<lambda>r. ID r = i) (rows d) = Some old"
  shows "fst (serve f (http_req PUT [uuid_string i] (Inr sub) []) d) = json_ok 200 (json_sub (sub\<lparr>ID := i\<rparr>)) \<and>
         fst (serve f' (http_req GET [uuid_string i] (Inl []) [])
                (snd (serve f (http_req PUT [uuid_string i] (Inr sub) []) d))) =
           json_ok 200 (json_sub (sub\<lparr>ID := i, CreatedAt := CreatedAt old\<rparr>))"
proof -
  have oi: "ID old = i" using assms(3) by (auto dest: find_Some_iff [THEN iffD1])
  have f: "find (\<lambda>r. ID r = i) (map (\<lambda>r. if ID r = i then set_fields (sub\<lparr>ID := i\<rparr>) r else r) (rows d)) =
      Some (sub\<lparr>ID := i, CreatedAt := CreatedAt old\<rparr>)"
    using assms(3) oi by (simp add: find_map_update set_fields_eq)
  show ?thesis
    using assms(1,2) f
    by (simp add: serve_http_req uuid_string_route Handler_Update_def Handler_Get_def pg_store_def
        PostgresStore_Update_def PostgresStore_Get_def uuid_parse_string Let_def)
qed

theorem update_then_get_witness:
  "up ex_db \<and> valid_uuid (replicate 16 1) \<and>
   find (\<lambda>r. ID r = replicate 16 1) (rows (ex_db\<lparr>rows := [ex_row1\<lparr>ID := replicate 16 1\<rparr>]\<rparr>)) = Some (ex_row1\<lparr>ID := replicate 16 1\<rparr>) \<and>
   fst (serve [] (http_req GET [uuid_string (replicate 16 1)] (Inl []) [])
          (snd (serve [] (http_req PUT [uuid_string (replicate 16 1)] (Inr ex_row2) []) (ex_db\<lparr>rows := [ex_row1\<lparr>ID := replicate 16 1\<rparr>]\<rparr>)))) =
     json_ok 200 (json_sub (ex_row2\<lparr>ID := replicate 16 1, CreatedAt := CreatedAt ex_row1\<rparr>))"
proof -
  have u: "up (ex_db\<lparr>rows := [ex_row1\<lparr>ID := replicate 16 1\<rparr>]\<rparr>)" and v: "valid_uuid (replicate 16 (1::byte))"
    and fd: "find (\<lambda>r. ID r = replicate 16 1) (rows (ex_db\<lparr>rows := [ex_row1\<lparr>ID := replicate 16 1\<rparr>]\<rparr>)) =
             Some (ex_row1\<lparr>ID := replicate 16 1\<rparr>)"
    by (simp_all add: ex_db_def valid_uuid_def)
  show ?thesis using u v fd update_then_get [OF u v fd, of "[]" ex_row2 "[]"] by (simp add: ex_db_def)
qed

text \<open>
  C15 (functional): spec section 8: a summary over a period no record falls in
  answers 200 with total 0, not an error.
\<close>

theorem summary_no_match_zero:
  assumes "up d" and "pf \<noteq> []" and "pt \<noteq> []" and "\<forall>r \<in> set (rows d). \<not> in_period pf pt r"
  shows "serve f (http_req GET [''summary''] (Inl []) (period_query pf pt)) d =
           (json_ok 200 (JObj [(''total'', JInt 0)]), d)"
proof -
  have "filter (\<lambda>r. in_period pf pt r \<and> matches None None r) (rows d) = []"
    using assms(4) by (simp add: filter_empty_conv)
  then show ?thesis
    using assms(1-3)
    by (simp add: serve_http_req Handler_Summary_def pg_store_def PostgresStore_Summary_eq
        opt_user_id_def opt_service_name_def in_int64_def int64_min_def int64_max_def)
qed

theorem summary_no_match_zero_witness:
  "up ex_db \<and> rows ex_db = [ex_row1, ex_row2] \<and>
   \<not> in_period ''09-2025'' ''12-2025'' ex_row1 \<and> \<not> in_period ''09-2025'' ''12-2025'' ex_row2 \<and>
   serve [] (http_req GET [''summary''] (Inl []) (period_query ''09-2025'' ''12-2025'')) ex_db =
     (json_ok 200 (JObj [(''total'', JInt 0)]), ex_db)"
proof -
  have u: "up ex_db" and r: "rows ex_db = [ex_row1, ex_row2]" by (simp_all add: ex_db_def)
  have n1: "\<not> in_period ''09-2025'' ''12-2025'' ex_row1"
    unfolding ex_row1_def in_period_def by code_simp
  have n2: "\<not> in_period ''09-2025'' ''12-2025'' ex_row2"
    unfolding ex_row2_def in_period_def by code_simp
  have n: "\<forall>r \<in> set (rows ex_db). \<not> in_period ''09-2025'' ''12-2025'' r"
    using r n1 n2 by simp
  show ?thesis using u r n1 n2 summary_no_match_zero [OF u _ _ n, of "[]"] by simp
qed

text \<open>
  C16 (error): when the database cannot be reached, \<open>GET\<close> of a well-formed id answers
  404, where the spec's error taxonomy asks for 500 (StorageError).
\<close>

theorem get_outage_404:
  assumes "\<not> up d" and "valid_uuid i"
  shows "status (fst (serve f (http_req GET [uuid_string i] (Inl []) []) d)) = 404"
  using assms
  by (simp add: serve_http_req uuid_string_route Handler_Get_def pg_store_def PostgresStore_Get_def
      uuid_parse_string http_error_def)

theorem get_outage_404_witness:
  "\<not> up (ex_db\<lparr>up := False\<rparr>) \<and> valid_uuid (replicate 16 1) \<and>
   status (fst (serve [] (http_req GET [uuid_string (replicate 16 1)] (Inl []) []) (ex_db\<lparr>up := False\<rparr>))) = 404"
proof -
  have u: "\<not> up (ex_db\<lparr>up := False\<rparr>)" and v: "valid_uuid (replicate 16 (1::byte))"
    by (simp_all add: valid_uuid_def)
  show ?thesis using u v get_outage_404 [OF u v, of "[]"] by simp
qed

text \<open>
  C17 (error): \<open>PUT\<close> on an id no record has answers 200 with the request's record
  and changes nothing (the spec's open question on Update).
\<close>

theorem update_missing_200:
  assumes "up d" and "valid_uuid i" and "i \<notin> set (map ID (rows d))"
  shows "serve f (http_req PUT [uuid_string i] (Inr sub) []) d =
           (json_ok 200 (json_sub (sub\<lparr>ID := i\<rparr>)), d)"
proof -
  have "map (\<lambda>r. if ID r = i then set_fields (sub\<lparr>ID := i\<rparr>) r else r) (rows d) = rows d"
    using assms(3) by (intro map_idI) auto
  then show ?thesis
    using assms
    by (simp add: serve_http_req uuid_string_route Handler_Update_def pg_store_def
        PostgresStore_Update_def uuid_parse_string Let_def)
qed

theorem update_missing_200_witness:
  "up ex_db \<and> valid_uuid (replicate 16 4) \<and> replicate 16 4 \<notin> set (map ID (rows ex_db)) \<and>
   serve [] (http_req PUT [uuid_string (replicate 16 4)] (Inr ex_row2) []) ex_db =
     (json_ok 200 (json_sub (ex_row2\<lparr>ID := replicate 16 4\<rparr>)), ex_db)"
proof -
  have u: "up ex_db" and v: "valid_uuid (replicate 16 (4::byte))"
    and n: "replicate 16 4 \<notin> set (map ID (rows ex_db))"
    by (simp_all add: ex_db_def ex_row1_def ex_row2_def valid_uuid_def numeral_eq_Suc)
  show ?thesis using u v n update_missing_200 [OF u v n, of "[]" ex_row2] by simp
qed

text \<open>
  C18 (functional): with no record to return, the PostgreSQL store's \<open>List\<close> gives
  the nil slice and the handler writes JSON \<open>null\<close>, while the spec promises an
  array; the tests' mock gives \<open>[]\<close>, so the tests cannot see it.
\<close>

theorem list_empty_null:
  assumes "up d" and "rows d = []" and "0 \<le> list_limit (url_query r)" and "0 \<le> list_offset (url_query r)"
  shows "Handler_List pg_store r d = (json_ok 200 JNull, d) \<and>
         Handler_List mock_store r newMockStore = (json_ok 200 (JArr []), newMockStore)"
  using assms
  by (simp add: Handler_List_def pg_store_def PostgresStore_List_eq json_slice_def scan_rows_eq
      order_desc_def mock_store_def mock_List_def newMockStore_def)

theorem list_empty_null_witness:
  "up \<lparr>rows = [], clock = 0, up = True\<rparr> \<and> rows \<lparr>rows = [], clock = 0, up = True\<rparr> = [] \<and>
   0 \<le> list_limit [] \<and> 0 \<le> list_offset [] \<and>
   Handler_List pg_store \<lparr>url_id = [], req_body = Inl [], url_query = []\<rparr> \<lparr>rows = [], clock = 0, up = True\<rparr> =
     (json_ok 200 JNull, \<lparr>rows = [], clock = 0, up = True\<rparr>) \<and>
   Handler_List mock_store \<lparr>url_id = [], req_body = Inl [], url_query = []\<rparr> newMockStore =
     (json_ok 200 (JArr []), newMockStore)"
proof -
  have l: "0 \<le> list_limit (url_query \<lparr>url_id = [], req_body = Inl [], url_query = []\<rparr>)"
    and o: "0 \<le> list_offset (url_query \<lparr>url_id = [], req_body = Inl [], url_query = []\<rparr>)"
    by (simp_all add: list_limit_def list_offset_def query_get_def)
  have u: "up \<lparr>rows = [], clock = 0, up = True\<rparr>" and e: "rows \<lparr>rows = [], clock = 0, up = True\<rparr> = []"
    by simp_all
  show ?thesis using l o list_empty_null [OF u e l o] by simp
qed



text \<open>
  C20 (functional): periods are \<open>MM-YYYY\<close> strings compared as text, so the
  month decides before the year: an open record starting in month \<open>m1\<close> of year
  \<open>y1\<close> counts in a summary from month \<open>m2\<close> of year \<open>y2\<close> exactly when
  \<open>m2 < m1\<close>, or the months agree and \<open>y2 \<le> y1\<close>, whatever the years are.
  A record from December 2024 counts from January 2025; one from January 2026
  does not count from December 2025.
\<close>

theorem summary_month_before_year:
  assumes "up d" and "rows d = [r]" and "EndDate r = None" and "StartDate r = m1 @ ''-'' @ y1"
    and "length m2 = length m1" and "pt \<noteq> []" and "in_int64 (Price r)"
  shows "serve f (http_req GET [''summary''] (Inl []) (period_query (m2 @ ''-'' @ y2) pt)) d =
           (json_ok 200 (JObj [(''total'', JInt (if m2 < m1 \<or> m2 = m1 \<and> y2 \<le> y1 then Price r else 0))]), d)"
proof -
  have "in_period (m2 @ ''-'' @ y2) pt r \<longleftrightarrow> (m2 < m1 \<or> m2 = m1 \<and> y2 \<le> y1)"
    using assms(3,4,5) by (simp add: in_period_def append_le_same_length)
  then show ?thesis
    using assms(1,2,6,7)
    by (simp add: serve_http_req Handler_Summary_def pg_store_def PostgresStore_Summary_eq Let_def
        opt_user_id_def opt_service_name_def matches_def in_int64_def int64_min_def int64_max_def)
qed

theorem summary_month_before_year_witness:
  "up \<lparr>rows = [dec2024_row], clock = 1, up = True\<rparr> \<and> rows \<lparr>rows = [dec2024_row], clock = 1, up = True\<rparr> = [dec2024_row] \<and>
   EndDate dec2024_row = None \<and> StartDate dec2024_row = ''12'' @ ''-'' @ ''2024'' \<and>
   length ''01'' = length ''12'' \<and> ''12-2025'' \<noteq> [] \<and> in_int64 (Price dec2024_row) \<and>
   serve [] (http_req GET [''summary''] (Inl []) (period_query (''01'' @ ''-'' @ ''2025'') ''12-2025''))
     \<lparr>rows = [dec2024_row], clock = 1, up = True\<rparr> =
   (json_ok 200 (JObj [(''total'', JInt 400)]), \<lparr>rows = [dec2024_row], clock = 1, up = True\<rparr>)"
proof -
  have u: "up \<lparr>rows = [dec2024_row], clock = 1, up = True\<rparr>"
    and r: "rows \<lparr>rows = [dec2024_row], clock = 1, up = True\<rparr> = [dec2024_row]"
    and e: "EndDate dec2024_row = None" and st: "StartDate dec2024_row = ''12'' @ ''-'' @ ''2024''"
    and n: "length ''01'' = length ''12''" and p: "''12-2025'' \<noteq> []" and i: "in_int64 (Price dec2024_row)"
    by (simp_all add: dec2024_row_def in_int64_def int64_min_def int64_max_def)
  have lt: "''01'' < ''12''" by code_simp
  show ?thesis
    using u r e st n p i lt summary_month_before_year [OF u r e st n p i, of "[]" "''2025''"]
    by (simp add: dec2024_row_def)
qed

text \<open>
  C21 (bounds): spec section 8: \<open>GET /subscriptions\<close> with no \<open>limit\<close> or
  \<open>limit=0\<close> answers 200 with a page of 10 records: all the matching records
  after the offset when fewer remain, and 10 of them otherwise.
\<close>

theorem list_default_page:
  assumes "up d" and "query_get q ''limit'' = [] \<or> query_get q ''limit'' = ''0''"
    and "0 \<le> list_offset q"
  shows "\<exists>res. serve f (http_req GET [] (Inl []) q) d = (json_ok 200 (json_slice res), d) \<and>
               length (slice_list res) =
                 min 10 (length (filter (matches (opt_user_id q) (opt_service_name q)) (rows d)) - nat (list_offset q))"
proof -
  have "go_Atoi ''0'' = (0, None)" by code_simp
  then have "list_limit q = 10" using assms(2) by (auto simp: list_limit_def)
  define xs where "xs = take 10 (drop (nat (list_offset q))
    (order_desc (filter (matches (opt_user_id q) (opt_service_name q)) (rows d))))"
  have "serve f (http_req GET [] (Inl []) q) d = (json_ok 200 (json_slice (scan_rows xs)), d)"
    using assms(1,3) \<open>list_limit q = 10\<close>
    by (simp add: serve_http_req Handler_List_def pg_store_def PostgresStore_List_eq xs_def)
  moreover have "length (slice_list (scan_rows xs)) =
      min 10 (length (filter (matches (opt_user_id q) (opt_service_name q)) (rows d)) - nat (list_offset q))"
    by (simp add: xs_def order_desc_def)
  ultimately show ?thesis by blast
qed

theorem list_default_page_witness:
  "up ex_db \<and> (query_get [] ''limit'' = [] \<or> query_get [] ''limit'' = ''0'') \<and> 0 \<le> list_offset [] \<and>
   (\<exists>res. serve [] (http_req GET [] (Inl []) []) ex_db = (json_ok 200 (json_slice res), ex_db) \<and>
          length (slice_list res) = min 10 (length (filter (matches None None) (rows ex_db)) - nat (list_offset []))) \<and>
   opt_user_id [] = None \<and> opt_service_name [] = None"
proof -
  have u: "up ex_db" by (simp add: ex_db_def)
  have q: "query_get [] ''limit'' = [] \<or> query_get [] ''limit'' = ''0''" by (simp add: query_get_def)
  have o: "0 \<le> list_offset []" by (simp add: list_offset_def query_get_def)
  have n: "opt_user_id [] = None" "opt_service_name [] = None"
    by (simp_all add: opt_user_id_def opt_service_name_def query_get_def)
  show ?thesis using u q o n list_default_page [OF u q o, of "[]"] by simp
qed

text \<open>
  C25 (error): spec section 8: \<open>GET /subscriptions/{id}\<close> with an id that \<open>uuid.Parse\<close>
  rejects answers 400 and leaves the database alone.
\<close>

theorem get_malformed_400:
  assumes "uuid_parse x = None" and "x \<noteq> ''summary''" and "x \<noteq> []"
  shows "serve f (http_req GET [x] (Inl []) []) d = (http_error 400 ''invalid id'', d)"
  using assms by (simp add: serve_http_req Handler_Get_def)

theorem get_malformed_400_witness:
  "uuid_parse ''42'' = None \<and> ''42'' \<noteq> ''summary'' \<and> ''42'' \<noteq> [] \<and>
   serve [] (http_req GET [''42''] (Inl []) []) ex_db = (http_error 400 ''invalid id'', ex_db)"
proof -
  have p: "uuid_parse ''42'' = None" by (simp add: uuid_parse_def)
  show ?thesis using p get_malformed_400 [OF p, of "[]" ex_db] by simp
qed

text \<open>
  C26 (functional): spec section 8: a record with no \<open>end_date\<close> that starts on or
  after \<open>period_from\<close> counts in the summary whatever \<open>period_to\<close> is.
\<close>

theorem summary_active_included:
  assumes "up d" and "rows d = [r]" and "EndDate r = None" and "pf \<le> StartDate r"
    and "pf \<noteq> []" and "pt \<noteq> []" and "in_int64 (Price r)"
  shows "serve f (http_req GET [''summary''] (Inl []) (period_query pf pt)) d =
           (json_ok 200 (JObj [(''total'', JInt (Price r))]), d)"
  using assms
  by (simp add: serve_http_req Handler_Summary_def pg_store_def PostgresStore_Summary_eq
      opt_user_id_def opt_service_name_def in_period_def matches_def)

theorem summary_active_included_witness:
  "up \<lparr>rows = [ex_row1], clock = 5, up = True\<rparr> \<and> rows \<lparr>rows = [ex_row1], clock = 5, up = True\<rparr> = [ex_row1] \<and>
   EndDate ex_row1 = None \<and> ''01-2025'' \<le> StartDate ex_row1 \<and> ''01-2025'' \<noteq> [] \<and> ''02-2025'' \<noteq> [] \<and>
   in_int64 (Price ex_row1) \<and>
   serve [] (http_req GET [''summary''] (Inl []) (period_query ''01-2025'' ''02-2025'')) \<lparr>rows = [ex_row1], clock = 5, up = True\<rparr> =
     (json_ok 200 (JObj [(''total'', JInt 400)]), \<lparr>rows = [ex_row1], clock = 5, up = True\<rparr>)"
proof -
  have u: "up \<lparr>rows = [ex_row1], clock = 5, up = True\<rparr>" and r: "rows \<lparr>rows = [ex_row1], clock = 5, up = True\<rparr> = [ex_row1]"
    and e: "EndDate ex_row1 = None" and i: "in_int64 (Price ex_row1)"
    by (simp_all add: ex_row1_def in_int64_def int64_min_def int64_max_def)
  have s: "''01-2025'' \<le> StartDate ex_row1" unfolding ex_row1_def by code_simp
  show ?thesis using u r e s i summary_active_included [OF u r e s _ _ i, of "''02-2025''" "[]"]
    by (simp add: ex_row1_def)
qed

text \<open>
  C27 (safety): two concurrent creates, each one \<open>INSERT\<close>. With distinct fresh
  ids they give the same table in either order, each record stamped by the
  database clock. With the same id the second is refused by the primary key:
  it answers 500 and the table keeps the first record.
\<close>

theorem concurrent_creates:
  assumes "up d" and "f1 \<notin> set (map ID (rows d))" and "f2 \<notin> set (map ID (rows d))"
  shows "(f1 \<noteq> f2 \<longrightarrow>
           abs_table (run [Request f1 (http_req POST [] (Inr s1) []), Request f2 (http_req POST [] (Inr s2) [])] d) =
           abs_table (run [Request f2 (http_req POST [] (Inr s2) []), Request f1 (http_req POST [] (Inr s1) [])] d) \<and>
           abs_table (run [Request f1 (http_req POST [] (Inr s1) []), Request f2 (http_req POST [] (Inr s2) [])] d) f1 =
             Some (s1\<lparr>ID := f1, CreatedAt := clock d\<rparr>) \<and>
           abs_table (run [Request f1 (http_req POST [] (Inr s1) []), Request f2 (http_req POST [] (Inr s2) [])] d) f2 =
             Some (s2\<lparr>ID := f2, CreatedAt := clock d\<rparr>)) \<and>
         (f1 = f2 \<longrightarrow>
           fst (serve f2 (http_req POST [] (Inr s2) []) (run [Request f1 (http_req POST [] (Inr s1) [])] d)) =
             http_error 500 (error_text ErrUniqueViolation) \<and>
           run [Request f1 (http_req POST [] (Inr s1) []), Request f2 (http_req POST [] (Inr s2) [])] d =
             run [Request f1 (http_req POST [] (Inr s1) [])] d)"
proof -
  have none: "map_of (map (\<lambda>r. (ID r, r)) (rows d)) f1 = None" "map_of (map (\<lambda>r. (ID r, r)) (rows d)) f2 = None"
    using assms(2,3) by (simp_all add: map_of_eq_None_iff image_image)
  show ?thesis
    using assms none
    by (simp add: run_def serve_http_req Handler_Create_def pg_store_def PostgresStore_Create_def Let_def
        abs_table_def map_of_swap_last [where xs = "map (\<lambda>r. (ID r, r)) (rows d)", simplified] map_of_append
        map_add_dom_app_simps(3) domIff)
qed

theorem concurrent_creates_witness:
  "up ex_db \<and> replicate 16 5 \<notin> set (map ID (rows ex_db)) \<and>
   fst (serve (replicate 16 5) (http_req POST [] (Inr ex_row2) [])
     (run [Request (replicate 16 5) (http_req POST [] (Inr ex_row1) [])] ex_db)) =
     http_error 500 (error_text ErrUniqueViolation) \<and>
   run [Request (replicate 16 5) (http_req POST [] (Inr ex_row1) []),
        Request (replicate 16 5) (http_req POST [] (Inr ex_row2) [])] ex_db =
   run [Request (replicate 16 5) (http_req POST [] (Inr ex_row1) [])] ex_db"
proof -
  have u: "up ex_db" and n: "(replicate 16 5 :: uuid) \<notin> set (map ID (rows ex_db))"
    by (simp_all add: ex_db_def ex_row1_def ex_row2_def numeral_eq_Suc)
  show ?thesis using u n concurrent_creates [OF u n n, of ex_row1 ex_row2] by simp
qed

end
